theory Spec2Isabelle
  imports Main
begin

section \<open>Data model of kitty/tabs.py\<close>

text \<open>
  Windows and tabs are Python objects compared with \<open>is\<close>, so both live in a store that is
  indexed by object reference (a natural number). Every reference denotes an object, hence
  the stores are total functions. A definition named \<open>tab_foo\<close> embeds the method
  \<open>Tab.foo\<close>, one named \<open>tm_foo\<close> embeds \<open>TabManager.foo\<close>; a leading underscore of the
  source is written \<open>u_\<close>. Python integers are \<open>int\<close>.
\<close>

datatype error = IndexError | StopIteration | ValueError | AttributeError | KeyError

text \<open>Calls into the collaborators (windows, borders, native layer, logger) are recorded
  in a trace, in call order.\<close>

datatype event =
    FocusChanged nat bool
  | ChangeTitlebarColor nat
  | Borders nat
  | MarkTabBarDirty
  | GlfwPostEmptyEvent
  | LogError string
  | LayoutCall string
  | LaunchChild
  | AddChild nat
  | NativeRemoveWindow nat nat
  | NativeRemoveTab nat
  | NativeSetActiveTab int
  | NativeSwapTabs int int
  | TabBarLayout
  | EvictCachedLayouts nat
  | WindowDestroy nat

text \<open>The attributes of a Window object that tabs.py reads or writes.\<close>

record window =
  wid :: nat
  overlay_for :: "nat option"
  overlay_window_id :: "nat option"

text \<open>
  The layout strategy is defined in kitty/layout.py and is taken as a parameter: each
  operation receives the window collection (which it may rearrange in place) and returns the
  collection together with the new active index, which may be any integer. A strategy is
  taken to return rather than raise, and to leave the window attributes above alone.
\<close>

record layout =
  full_name :: string
  l_call :: "nat list \<Rightarrow> int \<Rightarrow> nat list \<times> int"
  l_add_window :: "nat list \<Rightarrow> nat \<Rightarrow> int \<Rightarrow> nat list \<times> int"
  l_remove_window :: "nat list \<Rightarrow> nat \<Rightarrow> int \<Rightarrow> nat list \<times> int"
  l_set_active_window :: "nat list \<Rightarrow> int \<Rightarrow> nat list \<times> int"
  l_nth_window :: "nat list \<Rightarrow> int \<Rightarrow> nat list \<times> int"
  l_next_window :: "nat list \<Rightarrow> int \<Rightarrow> int \<Rightarrow> nat list \<times> int"
  l_move_window :: "nat list \<Rightarrow> int \<Rightarrow> int \<Rightarrow> nat list \<times> int"

record tab =
  tab_id :: nat
  u_active_window_idx :: int
  enabled_layouts :: "string list"
  windows :: "nat list"
  current_layout :: layout

record tab_manager =
  tabs :: "nat list"
  active_tab_history :: "nat list"
  u_active_tab_idx :: int

text \<open>
  The world: both object stores, the one tab manager with the liveness of the weak reference
  the tabs hold to it, the layout registry \<open>create_layout_object_for\<close> (\<open>None\<close> where the
  registry has no such name, a KeyError), and the trace.
\<close>

record world =
  wstore :: "nat \<Rightarrow> window"
  tstore :: "nat \<Rightarrow> tab"
  tm :: tab_manager
  tm_alive :: bool
  create_layout_object_for :: "string \<Rightarrow> layout option"
  trace :: "event list"

text \<open>An exception leaves the objects as they are at the raise, so it carries the world.\<close>

datatype result = Returns world | Raises error world

fun state_of :: "result \<Rightarrow> world" where
  "state_of (Returns s) = s"
| "state_of (Raises e s) = s"

fun returns :: "result \<Rightarrow> bool" where
  "returns (Returns s) = True"
| "returns (Raises e s) = False"

definition andthen :: "result \<Rightarrow> (world \<Rightarrow> result) \<Rightarrow> result" where
  "andthen r f = (case r of Returns s \<Rightarrow> f s | Raises e s \<Rightarrow> Raises e s)"

definition emit :: "event list \<Rightarrow> world \<Rightarrow> world" where
  "emit es s = s\<lparr>trace := trace s @ es\<rparr>"

definition upd_tab :: "nat \<Rightarrow> (tab \<Rightarrow> tab) \<Rightarrow> world \<Rightarrow> world" where
  "upd_tab t f s = s\<lparr>tstore := (tstore s)(t := f (tstore s t))\<rparr>"

definition upd_window :: "nat \<Rightarrow> (window \<Rightarrow> window) \<Rightarrow> world \<Rightarrow> world" where
  "upd_window w f s = s\<lparr>wstore := (wstore s)(w := f (wstore s w))\<rparr>"

definition upd_tm :: "(tab_manager \<Rightarrow> tab_manager) \<Rightarrow> world \<Rightarrow> world" where
  "upd_tm f s = s\<lparr>tm := f (tm s)\<rparr>"

text \<open>Indexing of a list or deque: a negative index counts from the end, \<open>None\<close> stands
  for IndexError.\<close>

definition py_getitem :: "'a list \<Rightarrow> int \<Rightarrow> 'a option" where
  "py_getitem xs i =
     (if 0 \<le> i \<and> i < int (length xs) then Some (xs ! nat i)
      else if i < 0 \<and> - int (length xs) \<le> i then Some (xs ! nat (int (length xs) + i))
      else None)"

text \<open>\<open>xs.index(x)\<close> and the first position satisfying a test (\<open>None\<close>: no such position).\<close>

fun first_index :: "('a \<Rightarrow> bool) \<Rightarrow> 'a list \<Rightarrow> nat option" where
  "first_index P [] = None"
| "first_index P (x # xs) =
     (if P x then Some 0 else map_option Suc (first_index P xs))"

definition clamp_idx :: "int \<Rightarrow> nat \<Rightarrow> int" where
  "clamp_idx val n = max 0 (min val (int n - 1))"

fun focus_ev :: "nat option \<Rightarrow> bool \<Rightarrow> event list" where
  "focus_ev None b = []"
| "focus_ev (Some w) b = [FocusChanged w b]"

section \<open>Tab\<close>

text \<open>The property \<open>Tab.active_window\<close>.\<close>

definition tab_active_window :: "tab \<Rightarrow> error + nat option" where
  "tab_active_window tb =
     (if windows tb \<noteq> [] then
        (case py_getitem (windows tb) (u_active_window_idx tb) of
           None \<Rightarrow> Inl IndexError
         | Some w \<Rightarrow> Inr (Some w))
      else Inr None)"

definition tm_mark_tab_bar_dirty :: "world \<Rightarrow> result" where
  "tm_mark_tab_bar_dirty s =
     (if length (tabs (tm s)) > 1 then Returns (emit [MarkTabBarDirty] s) else Returns s)"

definition tab_relayout_borders :: "nat \<Rightarrow> world \<Rightarrow> result" where
  "tab_relayout_borders t s =
     (if tm_alive s then
        (case tab_active_window (tstore s t) of
           Inl e \<Rightarrow> Raises e s
         | Inr w \<Rightarrow>
             Returns (emit (Borders t # (case w of None \<Rightarrow> [] | Some r \<Rightarrow> [ChangeTitlebarColor r])) s))
      else Returns s)"

text \<open>The setter of the property \<open>Tab.active_window_idx\<close>.\<close>

definition tab_active_window_idx_setter :: "nat \<Rightarrow> int \<Rightarrow> world \<Rightarrow> result" where
  "tab_active_window_idx_setter t val s =
     (let old_active_window = py_getitem (windows (tstore s t)) (u_active_window_idx (tstore s t));
          s1 = upd_tab t (\<lambda>tb. tb\<lparr>u_active_window_idx := clamp_idx val (length (windows tb))\<rparr>) s;
          new_active_window = py_getitem (windows (tstore s1 t)) (u_active_window_idx (tstore s1 t))
      in if old_active_window \<noteq> new_active_window then
           (let s2 = emit (focus_ev old_active_window False @ focus_ev new_active_window True) s1
            in if tm_alive s2 then andthen (tab_relayout_borders t s2) tm_mark_tab_bar_dirty
               else Returns s2)
         else Returns s1)"

text \<open>A call of a layout operation: the collection is replaced by what the strategy leaves,
  and the returned index goes through the setter.\<close>

definition apply_layout :: "nat \<Rightarrow> string \<Rightarrow> nat list \<times> int \<Rightarrow> world \<Rightarrow> result" where
  "apply_layout t nm r s =
     tab_active_window_idx_setter t (snd r)
       (upd_tab t (\<lambda>tb. tb\<lparr>windows := fst r\<rparr>) (emit [LayoutCall nm] s))"

definition tab_relayout :: "nat \<Rightarrow> world \<Rightarrow> result" where
  "tab_relayout t s =
     (let tb = tstore s t in
      andthen
        (if windows tb \<noteq> [] then
           apply_layout t ''__call__'' (l_call (current_layout tb) (windows tb) (u_active_window_idx tb)) s
         else Returns s)
        (tab_relayout_borders t))"

definition tab_next_layout :: "nat \<Rightarrow> world \<Rightarrow> result" where
  "tab_next_layout t s =
     (let tb = tstore s t in
      if length (enabled_layouts tb) > 1 then
        (let idx = (case first_index (\<lambda>n. n = full_name (current_layout tb)) (enabled_layouts tb) of
                      Some i \<Rightarrow> int i | None \<Rightarrow> - 1);
             nl = enabled_layouts tb ! nat ((idx + 1) mod int (length (enabled_layouts tb)))
         in case create_layout_object_for s nl of
              None \<Rightarrow> Raises KeyError s
            | Some l \<Rightarrow> tab_relayout t (upd_tab t (\<lambda>tb. tb\<lparr>current_layout := l\<rparr>) s))
      else Returns s)"

text \<open>\<open>str.lower\<close> on the ASCII letters.\<close>

definition lower_char :: "char \<Rightarrow> char" where
  "lower_char c =
     (let n = (of_char c :: nat) in if 65 \<le> n \<and> n \<le> 90 then char_of (n + 32) else c)"

definition lower :: "string \<Rightarrow> string" where
  "lower n = map lower_char n"

definition tab_goto_layout :: "nat \<Rightarrow> string \<Rightarrow> world \<Rightarrow> result" where
  "tab_goto_layout t layout_name0 s =
     (let layout_name = lower layout_name0 in
      if layout_name \<notin> set (enabled_layouts (tstore s t)) then
        Returns (emit [LogError (''Unknown or disabled layout: '' @ layout_name)] s)
      else
        (case create_layout_object_for s layout_name of
           None \<Rightarrow> Raises KeyError s
         | Some l \<Rightarrow> tab_relayout t (upd_tab t (\<lambda>tb. tb\<lparr>current_layout := l\<rparr>) s)))"

text \<open>
  \<open>Tab.new_window\<close>. The Window object is built by the constructor of kitty/window.py;
  its reference is the parameter \<open>window\<close>.
\<close>

definition tab_new_window :: "nat \<Rightarrow> nat \<Rightarrow> nat option \<Rightarrow> world \<Rightarrow> result" where
  "tab_new_window t window ovl s =
     (let s1 = emit [LaunchChild] s;
          linked =
            (case ovl of
               None \<Rightarrow> Returns s1
             | Some k \<Rightarrow>
                 (case find (\<lambda>w. wid (wstore s1 w) = k) (windows (tstore s1 t)) of
                    None \<Rightarrow> Raises StopIteration s1
                  | Some overlaid \<Rightarrow>
                      (let s2 = upd_window window (\<lambda>w. w\<lparr>overlay_for := Some k\<rparr>) s1
                       in Returns (upd_window overlaid
                            (\<lambda>w. w\<lparr>overlay_window_id := Some (wid (wstore s2 window))\<rparr>) s2))))
      in andthen linked (\<lambda>s3.
           let s4 = emit [AddChild window] s3; tb = tstore s4 t in
           andthen
             (apply_layout t ''add_window''
                (l_add_window (current_layout tb) (windows tb) window (u_active_window_idx tb)) s4)
             (\<lambda>s5. andthen (tab_relayout_borders t s5) (\<lambda>s6. Returns (emit [GlfwPostEmptyEvent] s6)))))"

definition tab_remove_window :: "nat \<Rightarrow> nat \<Rightarrow> world \<Rightarrow> result" where
  "tab_remove_window t window s =
     (let tb = tstore s t in
      andthen
        (apply_layout t ''remove_window''
           (l_remove_window (current_layout tb) (windows tb) window (u_active_window_idx tb)) s)
        (\<lambda>s1. andthen
           (tab_relayout_borders t
              (emit [NativeRemoveWindow (tab_id (tstore s1 t)) (wid (wstore s1 window))] s1))
           (\<lambda>s2. Returns (emit [GlfwPostEmptyEvent] s2))))"

definition tab_close_window :: "nat \<Rightarrow> world \<Rightarrow> result" where
  "tab_close_window t s =
     (let tb = tstore s t in
      if windows tb \<noteq> [] then
        (case py_getitem (windows tb) (u_active_window_idx tb) of
           None \<Rightarrow> Raises IndexError s
         | Some w \<Rightarrow> tab_remove_window t w s)
      else Returns s)"

definition tab_set_active_window_idx :: "nat \<Rightarrow> int \<Rightarrow> world \<Rightarrow> result" where
  "tab_set_active_window_idx t idx s =
     (let tb = tstore s t in
      if idx \<noteq> u_active_window_idx tb then
        andthen
          (apply_layout t ''set_active_window''
             (l_set_active_window (current_layout tb) (windows tb) idx) s)
          (\<lambda>s1. andthen (tab_relayout_borders t s1) (\<lambda>s2. Returns (emit [GlfwPostEmptyEvent] s2)))
      else Returns s)"

definition tab_set_active_window :: "nat \<Rightarrow> nat \<Rightarrow> world \<Rightarrow> result" where
  "tab_set_active_window t window s =
     (case first_index (\<lambda>w. w = window) (windows (tstore s t)) of
        None \<Rightarrow> Returns s
      | Some idx \<Rightarrow> tab_set_active_window_idx t (int idx) s)"

definition tab_nth_window :: "nat \<Rightarrow> int \<Rightarrow> world \<Rightarrow> result" where
  "tab_nth_window t num s =
     (let tb = tstore s t in
      if windows tb \<noteq> [] then
        andthen
          (apply_layout t ''nth_window'' (l_nth_window (current_layout tb) (windows tb) num) s)
          (\<lambda>s1. andthen (tab_relayout_borders t s1) (\<lambda>s2. Returns (emit [GlfwPostEmptyEvent] s2)))
      else Returns s)"

definition tab_u_next_window :: "nat \<Rightarrow> int \<Rightarrow> world \<Rightarrow> result" where
  "tab_u_next_window t delta s =
     (let tb = tstore s t in
      if length (windows tb) > 1 then
        andthen
          (apply_layout t ''next_window''
             (l_next_window (current_layout tb) (windows tb) (u_active_window_idx tb) delta) s)
          (\<lambda>s1. andthen (tab_relayout_borders t s1) (\<lambda>s2. Returns (emit [GlfwPostEmptyEvent] s2)))
      else Returns s)"

definition tab_next_window :: "nat \<Rightarrow> world \<Rightarrow> result" where
  "tab_next_window t s = tab_u_next_window t 1 s"

definition tab_previous_window :: "nat \<Rightarrow> world \<Rightarrow> result" where
  "tab_previous_window t s = tab_u_next_window t (- 1) s"

definition tab_move_window :: "nat \<Rightarrow> int \<Rightarrow> world \<Rightarrow> result" where
  "tab_move_window t delta s =
     (let tb = tstore s t in
      andthen
        (apply_layout t ''move_window''
           (l_move_window (current_layout tb) (windows tb) (u_active_window_idx tb) delta) s)
        (\<lambda>s1. andthen (tab_relayout t s1) (\<lambda>s2. Returns (emit [GlfwPostEmptyEvent] s2))))"

definition tab_move_window_to_top :: "nat \<Rightarrow> world \<Rightarrow> result" where
  "tab_move_window_to_top t s = tab_move_window t (- u_active_window_idx (tstore s t)) s"

definition tab_move_window_forward :: "nat \<Rightarrow> world \<Rightarrow> result" where
  "tab_move_window_forward t s = tab_move_window t 1 s"

definition tab_move_window_backward :: "nat \<Rightarrow> world \<Rightarrow> result" where
  "tab_move_window_backward t s = tab_move_window t (- 1) s"

definition tab_destroy :: "nat \<Rightarrow> world \<Rightarrow> result" where
  "tab_destroy t s =
     Returns (upd_tab t (\<lambda>tb. tb\<lparr>windows := []\<rparr>)
       (emit (EvictCachedLayouts (tab_id (tstore s t)) # map WindowDestroy (windows (tstore s t))) s))"

section \<open>TabManager\<close>

text \<open>The append to \<open>active_tab_history\<close> with its bound of 64 entries.\<close>

definition push_history :: "nat list \<Rightarrow> nat \<Rightarrow> nat list" where
  "push_history h x = (let h1 = h @ [x] in if length h1 > 64 then tl h1 else h1)"

text \<open>The focus notification of the setter below: \<open>w = tab.active_window\<close>, then
  \<open>w.focus_changed(b)\<close> unless \<open>w\<close> is None; nothing for a tab that is None.\<close>

definition notify_active_window :: "nat option \<Rightarrow> bool \<Rightarrow> world \<Rightarrow> result" where
  "notify_active_window r b s =
     (case r of
        None \<Rightarrow> Returns s
      | Some u \<Rightarrow>
          (case tab_active_window (tstore s u) of
             Inl e \<Rightarrow> Raises e s
           | Inr w \<Rightarrow> Returns (emit (focus_ev w b) s)))"

text \<open>The setter of the property \<open>TabManager.active_tab_idx\<close>.\<close>

definition tm_active_tab_idx_setter :: "int \<Rightarrow> world \<Rightarrow> result" where
  "tm_active_tab_idx_setter val s =
     (let old_active_tab = py_getitem (tabs (tm s)) (u_active_tab_idx (tm s));
          s0 = (case old_active_tab of
                  None \<Rightarrow> s
                | Some ot \<Rightarrow>
                    upd_tm (\<lambda>m. m\<lparr>active_tab_history :=
                      push_history (active_tab_history m) (tab_id (tstore s ot))\<rparr>) s);
          s1 = upd_tm (\<lambda>m. m\<lparr>u_active_tab_idx := clamp_idx val (length (tabs m))\<rparr>) s0;
          new_active_tab = py_getitem (tabs (tm s1)) (u_active_tab_idx (tm s1))
      in if old_active_tab \<noteq> new_active_tab then
           andthen (notify_active_window old_active_tab False s1)
             (notify_active_window new_active_tab True)
         else Returns s1)"

fun relayout_all :: "nat list \<Rightarrow> world \<Rightarrow> result" where
  "relayout_all [] s = Returns s"
| "relayout_all (t # ts) s = andthen (tab_relayout t s) (relayout_all ts)"

definition tm_resize :: "bool \<Rightarrow> world \<Rightarrow> result" where
  "tm_resize only_tabs s =
     andthen
       (if \<not> only_tabs then tm_mark_tab_bar_dirty (emit [TabBarLayout] s) else Returns s)
       (\<lambda>s1. relayout_all (tabs (tm s1)) s1)"

definition tm_tabbar_visibility_changed :: "world \<Rightarrow> result" where
  "tm_tabbar_visibility_changed s =
     andthen (tm_resize True (emit [TabBarLayout] s))
       (\<lambda>s1. Returns (emit [GlfwPostEmptyEvent] s1))"

definition tm_u_add_tab :: "nat \<Rightarrow> world \<Rightarrow> result" where
  "tm_u_add_tab tab s =
     (let before = length (tabs (tm s));
          s1 = upd_tm (\<lambda>m. m\<lparr>tabs := tabs m @ [tab]\<rparr>) s
      in if length (tabs (tm s1)) > 1 \<and> before < 2 then tm_tabbar_visibility_changed s1
         else Returns s1)"

definition tm_u_remove_tab :: "nat \<Rightarrow> world \<Rightarrow> result" where
  "tm_u_remove_tab tab s =
     (let before = length (tabs (tm s));
          s1 = emit [NativeRemoveTab (tab_id (tstore s tab))] s
      in if tab \<notin> set (tabs (tm s1)) then Raises ValueError s1
         else
           (let s2 = upd_tm (\<lambda>m. m\<lparr>tabs := remove1 tab (tabs m)\<rparr>) s1
            in if length (tabs (tm s2)) < 2 \<and> before > 1 then tm_tabbar_visibility_changed s2
               else Returns s2))"

definition tm_u_set_active_tab :: "int \<Rightarrow> world \<Rightarrow> result" where
  "tm_u_set_active_tab idx s =
     andthen (tm_active_tab_idx_setter idx s) (\<lambda>s1. Returns (emit [NativeSetActiveTab idx] s1))"

text \<open>The property \<open>TabManager.active_tab\<close>.\<close>

definition tm_active_tab :: "world \<Rightarrow> error + nat option" where
  "tm_active_tab s =
     (if tabs (tm s) \<noteq> [] then
        (case py_getitem (tabs (tm s)) (u_active_tab_idx (tm s)) of
           None \<Rightarrow> Inl IndexError
         | Some t \<Rightarrow> Inr (Some t))
      else Inr None)"

definition tm_set_active_tab_idx :: "int \<Rightarrow> world \<Rightarrow> result" where
  "tm_set_active_tab_idx idx s =
     andthen (tm_u_set_active_tab idx s)
       (\<lambda>s1. case tm_active_tab s1 of
                Inl e \<Rightarrow> Raises e s1
              | Inr None \<Rightarrow> Raises AttributeError s1
              | Inr (Some t) \<Rightarrow> andthen (tab_relayout_borders t s1) tm_mark_tab_bar_dirty)"

definition tm_set_active_tab :: "nat \<Rightarrow> world \<Rightarrow> result" where
  "tm_set_active_tab tab s =
     (case first_index (\<lambda>t. t = tab) (tabs (tm s)) of
        None \<Rightarrow> Returns s
      | Some idx \<Rightarrow> tm_set_active_tab_idx (int idx) s)"

definition tm_next_tab :: "int \<Rightarrow> world \<Rightarrow> result" where
  "tm_next_tab delta s =
     (let n = int (length (tabs (tm s))) in
      if n > 1 then tm_set_active_tab_idx ((u_active_tab_idx (tm s) + n + delta) mod n) s
      else Returns s)"

definition tm_goto_tab :: "int \<Rightarrow> world \<Rightarrow> result" where
  "tm_goto_tab tab_num s =
     (if tab_num < int (length (tabs (tm s))) \<and> 0 \<le> tab_num then tm_set_active_tab_idx tab_num s
      else Returns s)"

text \<open>Assignment to \<open>xs[i]\<close>, with the index rules of \<open>py_getitem\<close>.\<close>

definition py_setitem :: "'a list \<Rightarrow> int \<Rightarrow> 'a \<Rightarrow> 'a list option" where
  "py_setitem xs i v =
     (if 0 \<le> i \<and> i < int (length xs) then Some (xs[nat i := v])
      else if i < 0 \<and> - int (length xs) \<le> i then Some (xs[nat (int (length xs) + i) := v])
      else None)"

definition tm_move_tab :: "int \<Rightarrow> world \<Rightarrow> result" where
  "tm_move_tab delta s =
     (let ts = tabs (tm s); n = int (length ts) in
      if n > 1 then
        (let idx = u_active_tab_idx (tm s);
             nidx = (idx + n + delta) mod n
         in case (py_getitem ts nidx, py_getitem ts idx) of
              (Some a, Some b) \<Rightarrow>
                (case py_setitem ts idx a of
                   None \<Rightarrow> Raises IndexError s
                 | Some ts1 \<Rightarrow>
                     (case py_setitem ts1 nidx b of
                        None \<Rightarrow> Raises IndexError (upd_tm (\<lambda>m. m\<lparr>tabs := ts1\<rparr>) s)
                      | Some ts2 \<Rightarrow>
                          andthen
                            (tm_u_set_active_tab nidx
                               (emit [NativeSwapTabs idx nidx] (upd_tm (\<lambda>m. m\<lparr>tabs := ts2\<rparr>) s)))
                            tm_mark_tab_bar_dirty))
            | _ \<Rightarrow> Raises IndexError s)
      else Returns s)"

text \<open>The loop of \<open>TabManager.remove\<close> over the history: \<open>ids\<close> are the ids of the tabs
  that are left, in order, \<open>rid\<close> is the id of the removed tab.\<close>

function remove_loop :: "nat list \<Rightarrow> nat \<Rightarrow> nat list \<Rightarrow> int \<Rightarrow> nat list \<times> int" where
  "remove_loop ids rid h next_active_tab =
     (if h \<noteq> [] \<and> next_active_tab < 0 then
        (let tid = last h; h1 = butlast h in
         if tid = rid then remove_loop ids rid h1 next_active_tab
         else remove_loop ids rid h1
                (case first_index (\<lambda>q. q = tid) ids of
                   Some idx \<Rightarrow> int idx
                 | None \<Rightarrow> next_active_tab))
      else (h, next_active_tab))"
  by pat_completeness auto
termination
  by (relation "measure (\<lambda>(ids, rid, h, n). length h)") auto

definition tm_remove :: "nat \<Rightarrow> world \<Rightarrow> result" where
  "tm_remove tab s =
     andthen (tm_u_remove_tab tab s)
       (\<lambda>s1. let r = remove_loop (map (\<lambda>q. tab_id (tstore s1 q)) (tabs (tm s1)))
                        (tab_id (tstore s1 tab)) (active_tab_history (tm s1)) (- 1);
                  s2 = upd_tm (\<lambda>m. m\<lparr>active_tab_history := fst r\<rparr>) s1;
                  next_active_tab =
                    (if snd r < 0 then clamp_idx (u_active_tab_idx (tm s2)) (length (tabs (tm s2)))
                     else snd r)
              in andthen (tm_u_set_active_tab next_active_tab s2)
                   (\<lambda>s3. andthen (tm_mark_tab_bar_dirty s3) (tab_destroy tab)))"

section \<open>Invariants, operation sequences and auxiliary notions\<close>

text \<open>Invariant I1 of a tab: the stored active index addresses a window, or there is none.\<close>

definition I1 :: "tab \<Rightarrow> bool" where
  "I1 tb = (windows tb = [] \<or>
     (0 \<le> u_active_window_idx tb \<and> u_active_window_idx tb < int (length (windows tb))))"

text \<open>The operations of a tab as data, so that sequences of them can be run. An operation
  that raises leaves the tab as it is at the raise, and the next one starts from there.\<close>

datatype tab_op =
    NewWindow nat "nat option"
  | RemoveWindow nat
  | CloseWindow
  | SetActiveWindowIdx int
  | SetActiveWindow nat
  | NthWindow int
  | NextWindow
  | PreviousWindow
  | MoveWindow int
  | MoveWindowToTop
  | MoveWindowForward
  | MoveWindowBackward
  | Relayout
  | NextLayout
  | GotoLayout string
  | AssignActiveWindowIdx int
  | Destroy

fun tab_step :: "nat \<Rightarrow> tab_op \<Rightarrow> world \<Rightarrow> result" where
  "tab_step t (NewWindow w ovl) s = tab_new_window t w ovl s"
| "tab_step t (RemoveWindow w) s = tab_remove_window t w s"
| "tab_step t CloseWindow s = tab_close_window t s"
| "tab_step t (SetActiveWindowIdx i) s = tab_set_active_window_idx t i s"
| "tab_step t (SetActiveWindow w) s = tab_set_active_window t w s"
| "tab_step t (NthWindow n) s = tab_nth_window t n s"
| "tab_step t NextWindow s = tab_next_window t s"
| "tab_step t PreviousWindow s = tab_previous_window t s"
| "tab_step t (MoveWindow d) s = tab_move_window t d s"
| "tab_step t MoveWindowToTop s = tab_move_window_to_top t s"
| "tab_step t MoveWindowForward s = tab_move_window_forward t s"
| "tab_step t MoveWindowBackward s = tab_move_window_backward t s"
| "tab_step t Relayout s = tab_relayout t s"
| "tab_step t NextLayout s = tab_next_layout t s"
| "tab_step t (GotoLayout n) s = tab_goto_layout t n s"
| "tab_step t (AssignActiveWindowIdx v) s = tab_active_window_idx_setter t v s"
| "tab_step t Destroy s = tab_destroy t s"

fun tab_run :: "nat \<Rightarrow> tab_op list \<Rightarrow> world \<Rightarrow> world" where
  "tab_run t [] s = s"
| "tab_run t (x # xs) s = tab_run t xs (state_of (tab_step t x s))"

text \<open>What a returning \<open>relayout_borders\<close>, \<open>mark_tab_bar_dirty\<close> and index assignment
  add to the trace.\<close>

definition borders_events :: "nat \<Rightarrow> world \<Rightarrow> event list" where
  "borders_events t s =
     (if tm_alive s then
        Borders t # (case py_getitem (windows (tstore s t)) (u_active_window_idx (tstore s t)) of
                       None \<Rightarrow> [] | Some r \<Rightarrow> [ChangeTitlebarColor r])
      else [])"

definition dirty_events :: "world \<Rightarrow> event list" where
  "dirty_events s = (if length (tabs (tm s)) > 1 then [MarkTabBarDirty] else [])"

definition setter_events :: "nat \<Rightarrow> int \<Rightarrow> world \<Rightarrow> event list" where
  "setter_events t val s =
     (let ws = windows (tstore s t);
          old = py_getitem ws (u_active_window_idx (tstore s t));
          new = py_getitem ws (clamp_idx val (length ws))
      in if old \<noteq> new then
           focus_ev old False @ focus_ev new True @
           (if tm_alive s then Borders t # (case new of None \<Rightarrow> [] | Some r \<Rightarrow> [ChangeTitlebarColor r]) @ dirty_events s
            else [])
         else [])"

text \<open>The world after a layout operation was applied.\<close>

definition laid_out :: "nat \<Rightarrow> string \<Rightarrow> nat list \<times> int \<Rightarrow> world \<Rightarrow> world" where
  "laid_out t nm r s = state_of (apply_layout t nm r s)"

section \<open>A concrete layout and world\<close>

text \<open>A simple layout strategy: windows are appended, and the indices it returns are not
  kept in range. The world has three tabs, with references 0, 1 and 2, each with one window.\<close>

definition example_layout :: layout where
  "example_layout =
     \<lparr>full_name = ''stack'',
      l_call = (\<lambda>ws i. (ws, i)),
      l_add_window = (\<lambda>ws w i. (ws @ [w], int (length ws))),
      l_remove_window = (\<lambda>ws w i. (remove1 w ws, i)),
      l_set_active_window = (\<lambda>ws i. (ws, i)),
      l_nth_window = (\<lambda>ws n. (ws, n)),
      l_next_window = (\<lambda>ws i d. (ws, i + d)),
      l_move_window = (\<lambda>ws i d. (ws, i + d))\<rparr>"

definition example_world :: world where
  "example_world =
     \<lparr>wstore = (\<lambda>r. \<lparr>wid = r + 100, overlay_for = None, overlay_window_id = None\<rparr>),
      tstore = (\<lambda>r. \<lparr>tab_id = r + 10, u_active_window_idx = 0,
                       enabled_layouts = [''stack'', ''tall''], windows = [r],
                       current_layout = example_layout\<rparr>),
      tm = \<lparr>tabs = [0, 1, 2], active_tab_history = [], u_active_tab_idx = 0\<rparr>,
      tm_alive = True,
      create_layout_object_for =
        (\<lambda>n. if n = ''stack'' \<or> n = ''tall'' then Some (example_layout\<lparr>full_name := n\<rparr>) else None),
      trace = []\<rparr>"

section \<open>Notions used by the statements about the tab manager\<close>

text \<open>The focus notifications within a trace, the object found at an index of a tab's
  windows or of the manager's tabs, and the active window of a tab that may be None.\<close>

fun is_focus :: "event \<Rightarrow> bool" where
  "is_focus (FocusChanged w b) = True"
| "is_focus e = False"

definition window_at :: "world \<Rightarrow> nat \<Rightarrow> int \<Rightarrow> nat option" where
  "window_at s t i = py_getitem (windows (tstore s t)) i"

definition tab_at :: "world \<Rightarrow> int \<Rightarrow> nat option" where
  "tab_at s i = py_getitem (tabs (tm s)) i"

definition active_window_of :: "world \<Rightarrow> nat option \<Rightarrow> nat option" where
  "active_window_of s r =
     (case r of
        None \<Rightarrow> None
      | Some u \<Rightarrow> (case tab_active_window (tstore s u) of Inl e \<Rightarrow> None | Inr w \<Rightarrow> w))"

text \<open>The manager after an assignment to \<open>active_tab_idx\<close>, before any notification.\<close>

definition tm_setter_target :: "int \<Rightarrow> world \<Rightarrow> world" where
  "tm_setter_target val s =
     upd_tm (\<lambda>m. m\<lparr>u_active_tab_idx := clamp_idx val (length (tabs m))\<rparr>)
       (case tab_at s (u_active_tab_idx (tm s)) of
          None \<Rightarrow> s
        | Some ot \<Rightarrow>
            upd_tm (\<lambda>m. m\<lparr>active_tab_history :=
                      push_history (active_tab_history m) (tab_id (tstore s ot))\<rparr>) s)"

text \<open>How often the geometry of the tab bar was recomputed (\<open>tab_bar.layout()\<close>).\<close>

definition tab_bar_layouts :: "world \<Rightarrow> nat" where
  "tab_bar_layouts s = count_list (trace s) TabBarLayout"

text \<open>How often the strategy was asked for a full layout (\<open>current_layout(windows, idx)\<close>),
  a tab after a full relayout (\<open>Tab.relayout\<close>: the strategy lays the windows out and the
  index it returns goes through the setter; nothing for a tab without windows), and whether
  a tab has windows.\<close>

definition layout_calls :: "world \<Rightarrow> nat" where
  "layout_calls s = count_list (trace s) (LayoutCall ''__call__'')"

definition relaid_tab :: "tab \<Rightarrow> tab" where
  "relaid_tab tb =
     (if windows tb \<noteq> [] then
        (let r = l_call (current_layout tb) (windows tb) (u_active_window_idx tb)
         in tb\<lparr>windows := fst r, u_active_window_idx := clamp_idx (snd r) (length (fst r))\<rparr>)
      else tb)"

definition has_windows :: "world \<Rightarrow> nat \<Rightarrow> bool" where
  "has_windows s t = (windows (tstore s t) \<noteq> [])"

text \<open>The calls \<open>swap_tabs\<close> and \<open>set_active_tab\<close> of the native layer within a trace, the
  position \<open>(idx + len + delta) mod len\<close> a move aims at, invariant I1 for every tab of the
  manager, and what a returning assignment to \<open>active_tab_idx\<close> adds to the trace.\<close>

fun is_native_tab_call :: "event \<Rightarrow> bool" where
  "is_native_tab_call (NativeSwapTabs a b) = True"
| "is_native_tab_call (NativeSetActiveTab a) = True"
| "is_native_tab_call e = False"

definition move_target :: "world \<Rightarrow> int \<Rightarrow> int" where
  "move_target s delta =
     (u_active_tab_idx (tm s) + int (length (tabs (tm s))) + delta) mod int (length (tabs (tm s)))"

definition I1_tabs :: "world \<Rightarrow> bool" where
  "I1_tabs s = list_all (\<lambda>u. I1 (tstore s u)) (tabs (tm s))"

definition tm_setter_events :: "int \<Rightarrow> world \<Rightarrow> event list" where
  "tm_setter_events val s =
     (if tab_at s (u_active_tab_idx (tm s)) \<noteq> tab_at s (clamp_idx val (length (tabs (tm s))))
      then focus_ev (active_window_of s (tab_at s (u_active_tab_idx (tm s)))) False
           @ focus_ev (active_window_of s (tab_at s (clamp_idx val (length (tabs (tm s)))))) True
      else [])"

text \<open>
  The reactivation rule of \<open>TabManager.remove\<close> in the words of the specification: going
  through the history from its most recent end, the first entry that is not the id of the
  removed tab and is the id of a remaining tab selects the position of (the first) tab with
  that id; without such an entry the previous active index is clamped into the remaining
  tabs. \<open>ids\<close> are the ids of the remaining tabs in order, \<open>rid\<close> the id of the removed tab.
\<close>

definition spec_next_active :: "nat list \<Rightarrow> nat \<Rightarrow> nat list \<Rightarrow> int \<Rightarrow> int" where
  "spec_next_active ids rid h prev =
     (case find (\<lambda>x. x \<noteq> rid \<and> x \<in> set ids) (rev h) of
        Some x \<Rightarrow> int (length (takeWhile (\<lambda>q. q \<noteq> x) ids))
      | None \<Rightarrow> clamp_idx prev (length ids))"

declare remove_loop.simps [simp del]

text \<open>The worlds after \<open>tabbar_visibility_changed\<close> and after \<open>_remove_tab\<close>, and the scenario
  of visiting tab \<open>b\<close>, then tab \<open>c\<close>, then closing \<open>c\<close>.\<close>

definition after_visibility_change :: "world \<Rightarrow> world" where
  "after_visibility_change s = state_of (tm_tabbar_visibility_changed s)"

definition tab_removed :: "nat \<Rightarrow> world \<Rightarrow> world" where
  "tab_removed tab s = state_of (tm_u_remove_tab tab s)"

definition close_after_visiting :: "nat \<Rightarrow> nat \<Rightarrow> world \<Rightarrow> result" where
  "close_after_visiting b c s =
     tm_remove c (state_of (tm_set_active_tab c (state_of (tm_set_active_tab b s))))"

text \<open>The operations of the tab manager as data; \<open>OnTab t x\<close> is operation \<open>x\<close> of the tab
  \<open>t\<close>. As for tabs, a run goes on from the world an exception leaves.\<close>

datatype tm_op =
    AssignActiveTabIdx int
  | USetActiveTab int
  | SetActiveTabIdx int
  | SetActiveTab nat
  | NextTab int
  | GotoTab int
  | MoveTab int
  | Remove nat
  | UAddTab nat
  | URemoveTab nat
  | Resize bool
  | OnTab nat tab_op

fun tm_step :: "tm_op \<Rightarrow> world \<Rightarrow> result" where
  "tm_step (AssignActiveTabIdx v) s = tm_active_tab_idx_setter v s"
| "tm_step (USetActiveTab i) s = tm_u_set_active_tab i s"
| "tm_step (SetActiveTabIdx i) s = tm_set_active_tab_idx i s"
| "tm_step (SetActiveTab t) s = tm_set_active_tab t s"
| "tm_step (NextTab d) s = tm_next_tab d s"
| "tm_step (GotoTab n) s = tm_goto_tab n s"
| "tm_step (MoveTab d) s = tm_move_tab d s"
| "tm_step (Remove t) s = tm_remove t s"
| "tm_step (UAddTab t) s = tm_u_add_tab t s"
| "tm_step (URemoveTab t) s = tm_u_remove_tab t s"
| "tm_step (Resize b) s = tm_resize b s"
| "tm_step (OnTab t x) s = tab_step t x s"

fun tm_run :: "tm_op list \<Rightarrow> world \<Rightarrow> world" where
  "tm_run [] s = s"
| "tm_run (x # xs) s = tm_run xs (state_of (tm_step x s))"

text \<open>The bound of the history.\<close>

definition hist_ok :: "world \<Rightarrow> bool" where
  "hist_ok s = (length (active_tab_history (tm s)) \<le> 64)"

text \<open>For a list of requested positions, the positions that were active when each request
  was made, starting from \<open>cur\<close>, and the ids of the tabs at those positions.\<close>

fun outgoing :: "int \<Rightarrow> int list \<Rightarrow> int list" where
  "outgoing cur [] = []"
| "outgoing cur (i # is) = cur # outgoing i is"

definition in_range :: "world \<Rightarrow> int \<Rightarrow> bool" where
  "in_range s i = (0 \<le> i \<and> i < int (length (tabs (tm s))))"

definition outgoing_ids :: "world \<Rightarrow> int list \<Rightarrow> nat list" where
  "outgoing_ids s idxs =
     map (\<lambda>j. tab_id (tstore s (tabs (tm s) ! nat j))) (outgoing (u_active_tab_idx (tm s)) idxs)"

section \<open>Properties\<close>

subsection \<open>Basic facts\<close>

lemma andthen_Returns [simp]: "andthen (Returns s) f = f s"
  by (simp add: andthen_def)

lemma andthen_Raises [simp]: "andthen (Raises e s) f = Raises e s"
  by (simp add: andthen_def)

lemma py_getitem_in_range:
  "0 \<le> i \<Longrightarrow> i < int (length xs) \<Longrightarrow> py_getitem xs i = Some (xs ! nat i)"
  by (simp add: py_getitem_def)

lemma py_getitem_Nil [simp]: "py_getitem [] i = None"
  by (simp add: py_getitem_def)

lemma clamp_idx_range: "0 < n \<Longrightarrow> 0 \<le> clamp_idx v n \<and> clamp_idx v n < int n"
  by (auto simp: clamp_idx_def)

lemma clamp_idx_zero [simp]: "clamp_idx v 0 = 0"
  by (simp add: clamp_idx_def)

lemma active_window_I1:
  "I1 tb \<Longrightarrow> tab_active_window tb = Inr (if windows tb = [] then None else Some (windows tb ! nat (u_active_window_idx tb)))"
  by (auto simp: I1_def tab_active_window_def py_getitem_def)

lemma relayout_borders_I1:
  "I1 (tstore s t) \<Longrightarrow> tab_relayout_borders t s = Returns (emit (borders_events t s) s)"
  by (auto simp: tab_relayout_borders_def borders_events_def active_window_I1 I1_def py_getitem_def emit_def)

lemma mark_dirty_eq: "tm_mark_tab_bar_dirty s = Returns (emit (dirty_events s) s)"
  by (simp add: tm_mark_tab_bar_dirty_def dirty_events_def emit_def)

lemma emit_proj [simp]:
  "tstore (emit es s) = tstore s" "wstore (emit es s) = wstore s" "tm (emit es s) = tm s"
  "tm_alive (emit es s) = tm_alive s" "create_layout_object_for (emit es s) = create_layout_object_for s"
  "trace (emit es s) = trace s @ es"
  by (simp_all add: emit_def)

lemma emit_emit [simp]: "emit es (emit fs s) = emit (fs @ es) s"
  by (simp add: emit_def)

lemma upd_tab_proj [simp]:
  "tstore (upd_tab t f s) = (tstore s)(t := f (tstore s t))" "wstore (upd_tab t f s) = wstore s"
  "tm (upd_tab t f s) = tm s" "tm_alive (upd_tab t f s) = tm_alive s"
  "create_layout_object_for (upd_tab t f s) = create_layout_object_for s"
  "trace (upd_tab t f s) = trace s"
  by (simp_all add: upd_tab_def)

lemma setter_eq:
  "tab_active_window_idx_setter t val s =
     Returns (emit (setter_events t val s)
       (upd_tab t (\<lambda>tb. tb\<lparr>u_active_window_idx := clamp_idx val (length (windows tb))\<rparr>) s))"
proof -
  let ?s1 = "upd_tab t (\<lambda>tb. tb\<lparr>u_active_window_idx := clamp_idx val (length (windows tb))\<rparr>) s"
  have inv: "I1 (tstore ?s1 t)"
    using clamp_idx_range [of "length (windows (tstore s t))" val] by (auto simp: I1_def)
  have rb: "tab_relayout_borders t (emit es ?s1) = Returns (emit (borders_events t (emit es ?s1)) (emit es ?s1))" for es
    using inv by (intro relayout_borders_I1) simp
  show ?thesis
    unfolding tab_active_window_idx_setter_def Let_def
    by (simp add: rb mark_dirty_eq setter_events_def borders_events_def dirty_events_def Let_def)
qed

lemma upd_window_proj [simp]:
  "tstore (upd_window w f s) = tstore s" "wstore (upd_window w f s) = (wstore s)(w := f (wstore s w))"
  "tm (upd_window w f s) = tm s" "tm_alive (upd_window w f s) = tm_alive s"
  "create_layout_object_for (upd_window w f s) = create_layout_object_for s"
  "trace (upd_window w f s) = trace s"
  by (simp_all add: upd_window_def)

lemma I1_clamped [simp]: "I1 (tb\<lparr>u_active_window_idx := clamp_idx v (length (windows tb))\<rparr>)"
  using clamp_idx_range [of "length (windows tb)" v] by (auto simp: I1_def)

lemma I1_clamped2 [simp]: "I1 (tb\<lparr>windows := ws, u_active_window_idx := clamp_idx v (length ws)\<rparr>)"
  using clamp_idx_range [of "length ws" v] by (auto simp: I1_def)

lemma I1_no_windows [simp]: "I1 (tb\<lparr>windows := []\<rparr>)"
  by (simp add: I1_def)

lemma I1_current_layout [simp]: "I1 (tb\<lparr>current_layout := l\<rparr>) = I1 tb"
  by (simp add: I1_def)

lemma apply_layout_eq: "apply_layout t nm r s = Returns (laid_out t nm r s)"
  by (simp add: laid_out_def apply_layout_def setter_eq)

lemma laid_out_tstore:
  "tstore (laid_out t nm r s) =
     (tstore s)(t := (tstore s t)\<lparr>windows := fst r, u_active_window_idx := clamp_idx (snd r) (length (fst r))\<rparr>)"
  by (simp add: laid_out_def apply_layout_def setter_eq)

lemma laid_out_I1 [simp]: "I1 (tstore (laid_out t nm r s) t)"
  by (simp add: laid_out_tstore)

lemma laid_out_other: "u \<noteq> t \<Longrightarrow> tstore (laid_out t nm r s) u = tstore s u"
  by (simp add: laid_out_tstore)

lemma laid_out_proj [simp]:
  "tm (laid_out t nm r s) = tm s" "wstore (laid_out t nm r s) = wstore s"
  "tm_alive (laid_out t nm r s) = tm_alive s"
  "create_layout_object_for (laid_out t nm r s) = create_layout_object_for s"
  by (simp_all add: laid_out_def apply_layout_def setter_eq)

lemma relayout_borders_proj [simp]:
  "tstore (state_of (tab_relayout_borders t s)) = tstore s"
  "tm (state_of (tab_relayout_borders t s)) = tm s"
  "wstore (state_of (tab_relayout_borders t s)) = wstore s"
  "tm_alive (state_of (tab_relayout_borders t s)) = tm_alive s"
  "create_layout_object_for (state_of (tab_relayout_borders t s)) = create_layout_object_for s"
  by (simp_all add: tab_relayout_borders_def split: sum.splits)

lemma I1_any_tab: "I1 (tstore s u) \<Longrightarrow> I1 (tstore (laid_out t nm r s) u)"
  by (cases "u = t") (simp_all add: laid_out_other)

lemma relayout_I1: "I1 (tstore s u) \<Longrightarrow> I1 (tstore (state_of (tab_relayout t s)) u)"
  by (simp add: tab_relayout_def Let_def apply_layout_eq relayout_borders_I1 I1_any_tab)

lemma relayout_returns: "I1 (tstore s t) \<Longrightarrow> returns (tab_relayout t s)"
  by (simp add: tab_relayout_def Let_def apply_layout_eq relayout_borders_I1)

lemma I1_upd_tab_layout: "I1 (tstore s u) \<Longrightarrow> I1 (tstore (upd_tab t (\<lambda>tb. tb\<lparr>current_layout := l\<rparr>) s) u)"
  by auto

lemma setter_I1: "I1 (tstore s u) \<Longrightarrow> I1 (tstore (state_of (tab_active_window_idx_setter t v s)) u)"
  by (simp add: setter_eq)

lemma new_window_I1: "I1 (tstore s u) \<Longrightarrow> I1 (tstore (state_of (tab_new_window t w ovl s)) u)"
  by (simp add: tab_new_window_def Let_def apply_layout_eq relayout_borders_I1 I1_any_tab
      split: option.splits)

lemma remove_window_I1: "I1 (tstore s u) \<Longrightarrow> I1 (tstore (state_of (tab_remove_window t w s)) u)"
  by (simp add: tab_remove_window_def Let_def apply_layout_eq relayout_borders_I1 I1_any_tab)

lemma close_window_I1: "I1 (tstore s u) \<Longrightarrow> I1 (tstore (state_of (tab_close_window t s)) u)"
  by (simp add: tab_close_window_def Let_def remove_window_I1 split: option.splits)

lemma set_active_window_idx_I1:
  "I1 (tstore s u) \<Longrightarrow> I1 (tstore (state_of (tab_set_active_window_idx t i s)) u)"
  by (simp add: tab_set_active_window_idx_def Let_def apply_layout_eq relayout_borders_I1 I1_any_tab)

lemma set_active_window_I1:
  "I1 (tstore s u) \<Longrightarrow> I1 (tstore (state_of (tab_set_active_window t w s)) u)"
  by (simp add: tab_set_active_window_def set_active_window_idx_I1 split: option.splits)

lemma nth_window_I1: "I1 (tstore s u) \<Longrightarrow> I1 (tstore (state_of (tab_nth_window t n s)) u)"
  by (simp add: tab_nth_window_def Let_def apply_layout_eq relayout_borders_I1 I1_any_tab)

lemma u_next_window_I1: "I1 (tstore s u) \<Longrightarrow> I1 (tstore (state_of (tab_u_next_window t d s)) u)"
  by (simp add: tab_u_next_window_def Let_def apply_layout_eq relayout_borders_I1 I1_any_tab)

lemma move_window_I1: "I1 (tstore s u) \<Longrightarrow> I1 (tstore (state_of (tab_move_window t d s)) u)"
proof -
  assume a: "I1 (tstore s u)"
  let ?s1 = "laid_out t ''move_window''
     (l_move_window (current_layout (tstore s t)) (windows (tstore s t)) (u_active_window_idx (tstore s t)) d) s"
  have "I1 (tstore ?s1 u)" using a by (rule I1_any_tab)
  then have b: "I1 (tstore (state_of (tab_relayout t ?s1)) u)" by (rule relayout_I1)
  have "returns (tab_relayout t ?s1)" by (rule relayout_returns) simp
  then obtain s2 where c: "tab_relayout t ?s1 = Returns s2" by (cases "tab_relayout t ?s1") auto
  show ?thesis using b c by (simp add: tab_move_window_def Let_def apply_layout_eq)
qed

lemma next_layout_I1: "I1 (tstore s u) \<Longrightarrow> I1 (tstore (state_of (tab_next_layout t s)) u)"
  by (auto simp: tab_next_layout_def Let_def split: option.splits
      intro!: relayout_I1 I1_upd_tab_layout)

lemma goto_layout_I1: "I1 (tstore s u) \<Longrightarrow> I1 (tstore (state_of (tab_goto_layout t n s)) u)"
  by (auto simp: tab_goto_layout_def Let_def split: option.splits
      intro!: relayout_I1 I1_upd_tab_layout)

lemma destroy_I1: "I1 (tstore s u) \<Longrightarrow> I1 (tstore (state_of (tab_destroy t s)) u)"
  by (simp add: tab_destroy_def)

lemma tab_step_I1: "I1 (tstore s u) \<Longrightarrow> I1 (tstore (state_of (tab_step t x s)) u)"
  by (cases x)
     (simp_all add: new_window_I1 remove_window_I1 close_window_I1 set_active_window_idx_I1
        set_active_window_I1 nth_window_I1 u_next_window_I1 move_window_I1 next_layout_I1
        goto_layout_I1 destroy_I1 setter_I1 relayout_I1 tab_next_window_def
        tab_previous_window_def tab_move_window_to_top_def tab_move_window_forward_def
        tab_move_window_backward_def)

lemma tab_run_I1: "I1 (tstore s u) \<Longrightarrow> I1 (tstore (tab_run t xs s) u)"
  by (induction xs arbitrary: s) (simp_all add: tab_step_I1)

subsection \<open>Validity of the active-window index\<close>

text \<open>
  Claim C1. The setter of \<open>Tab.active_window_idx\<close> returns for every integer argument,
  leaves the window collection alone and stores the argument clamped to
  \<open>max 0 (min val (len - 1))\<close>, so that afterwards the stored index addresses a window
  whenever there is one. Every operation of a tab (insertion, removal, navigation, move,
  layout change, destruction) keeps invariant I1, and so does every sequence of them: I1
  holds after each prefix of the sequence, whatever the layout strategy returns.
\<close>

theorem tab_active_window_idx_valid:
  "returns (tab_active_window_idx_setter t val s)
   \<and> windows (tstore (state_of (tab_active_window_idx_setter t val s)) t) = windows (tstore s t)
   \<and> u_active_window_idx (tstore (state_of (tab_active_window_idx_setter t val s)) t)
       = max 0 (min val (int (length (windows (tstore s t))) - 1))
   \<and> I1 (tstore (state_of (tab_active_window_idx_setter t val s)) t)
   \<and> (I1 (tstore s t) \<longrightarrow> (\<forall>n. I1 (tstore (tab_run t (take n ops) s) t)))"
proof -
  have "max 0 (min val (int (length (windows (tstore s t))) - 1))
        = clamp_idx val (length (windows (tstore s t)))"
    by (simp add: clamp_idx_def)
  then show ?thesis
    by (simp add: setter_eq tab_run_I1)
qed

theorem tab_active_window_idx_valid_witness:
  "I1 (tstore example_world 0)
   \<and> I1 (tstore (tab_run 0 [NewWindow 7 None, NewWindow 8 None, NextWindow, RemoveWindow 8,
           MoveWindow (- 5), CloseWindow, CloseWindow] example_world) 0)"
proof -
  have h: "I1 (tstore example_world 0)"
    by (simp add: example_world_def I1_def)
  from tab_active_window_idx_valid [of 0 0 example_world
      "[NewWindow 7 None, NewWindow 8 None, NextWindow, RemoveWindow 8, MoveWindow (- 5), CloseWindow, CloseWindow]"]
  have "\<forall>n. I1 (tstore (tab_run 0 (take n [NewWindow 7 None, NewWindow 8 None, NextWindow,
      RemoveWindow 8, MoveWindow (- 5), CloseWindow, CloseWindow]) example_world) 0)"
    using h by blast
  from this [rule_format, of 7] h show ?thesis by simp
qed

subsection \<open>Selecting the window that is already active\<close>

text \<open>
  Claim C10. \<open>Tab.set_active_window_idx\<close> called with the index that is already stored
  returns the world as it was: no call of the layout strategy, no focus notification, no
  border relayout and no wakeup enters the trace, and no object changes.
\<close>

theorem tab_set_active_window_idx_same_noop:
  "tab_set_active_window_idx t (u_active_window_idx (tstore s t)) s = Returns s"
  by (simp add: tab_set_active_window_idx_def)

subsection \<open>Focus notifications\<close>

lemma upd_tm_proj [simp]:
  "tstore (upd_tm f s) = tstore s" "wstore (upd_tm f s) = wstore s" "tm (upd_tm f s) = f (tm s)"
  "tm_alive (upd_tm f s) = tm_alive s"
  "create_layout_object_for (upd_tm f s) = create_layout_object_for s"
  "trace (upd_tm f s) = trace s"
  by (simp_all add: upd_tm_def)

lemma focus_ev_filter [simp]: "filter is_focus (focus_ev w b) = focus_ev w b"
  by (cases w) simp_all

lemma setter_events_focus:
  "filter is_focus (setter_events t val s) =
     (if window_at s t (u_active_window_idx (tstore s t))
          \<noteq> window_at s t (clamp_idx val (length (windows (tstore s t))))
      then focus_ev (window_at s t (u_active_window_idx (tstore s t))) False
           @ focus_ev (window_at s t (clamp_idx val (length (windows (tstore s t))))) True
      else [])"
  by (simp add: setter_events_def Let_def window_at_def dirty_events_def split: option.splits)

lemma py_getitem_mem: "py_getitem xs i = Some x \<Longrightarrow> x \<in> set xs"
  by (auto simp: py_getitem_def split: if_splits)

lemma tm_setter_target_proj [simp]:
  "tstore (tm_setter_target val s) = tstore s"
  "wstore (tm_setter_target val s) = wstore s"
  "tm_alive (tm_setter_target val s) = tm_alive s"
  "create_layout_object_for (tm_setter_target val s) = create_layout_object_for s"
  "trace (tm_setter_target val s) = trace s"
  "tabs (tm (tm_setter_target val s)) = tabs (tm s)"
  "u_active_tab_idx (tm (tm_setter_target val s)) = clamp_idx val (length (tabs (tm s)))"
  "active_tab_history (tm (tm_setter_target val s)) =
     (case tab_at s (u_active_tab_idx (tm s)) of
        None \<Rightarrow> active_tab_history (tm s)
      | Some ot \<Rightarrow> push_history (active_tab_history (tm s)) (tab_id (tstore s ot)))"
  by (simp_all add: tm_setter_target_def split: option.splits)

lemma notify_proj [simp]:
  "tstore (state_of (notify_active_window r b s)) = tstore s"
  "tm (state_of (notify_active_window r b s)) = tm s"
  "wstore (state_of (notify_active_window r b s)) = wstore s"
  "tm_alive (state_of (notify_active_window r b s)) = tm_alive s"
  "create_layout_object_for (state_of (notify_active_window r b s)) = create_layout_object_for s"
  by (simp_all add: notify_active_window_def split: option.splits sum.splits)

lemma state_of_andthen:
  "state_of (andthen r f) = (if returns r then state_of (f (state_of r)) else state_of r)"
  by (cases r) simp_all

lemma tm_setter_unfold:
  "tm_active_tab_idx_setter val s =
     (if tab_at s (u_active_tab_idx (tm s)) \<noteq> tab_at s (clamp_idx val (length (tabs (tm s))))
      then andthen (notify_active_window (tab_at s (u_active_tab_idx (tm s))) False (tm_setter_target val s))
             (notify_active_window (tab_at s (clamp_idx val (length (tabs (tm s))))) True)
      else Returns (tm_setter_target val s))"
  by (cases "tab_at s (u_active_tab_idx (tm s))")
     (simp_all add: tm_active_tab_idx_setter_def Let_def tm_setter_target_def tab_at_def)

lemma tm_setter_tm:
  "tm (state_of (tm_active_tab_idx_setter val s)) = tm (tm_setter_target val s)"
  by (simp add: tm_setter_unfold state_of_andthen)

lemma tm_setter_stores:
  "tstore (state_of (tm_active_tab_idx_setter val s)) = tstore s"
  "wstore (state_of (tm_active_tab_idx_setter val s)) = wstore s"
  "tm_alive (state_of (tm_active_tab_idx_setter val s)) = tm_alive s"
  "create_layout_object_for (state_of (tm_active_tab_idx_setter val s)) = create_layout_object_for s"
  by (simp_all add: tm_setter_unfold state_of_andthen)

lemma notify_I1:
  "(\<And>u. r = Some u \<Longrightarrow> I1 (tstore s u)) \<Longrightarrow>
   notify_active_window r b s = Returns (emit (focus_ev (active_window_of s r) b) s)"
  by (cases r) (simp_all add: notify_active_window_def active_window_of_def active_window_I1 emit_def)

lemma active_window_of_emit [simp]: "active_window_of (emit es s) r = active_window_of s r"
  by (cases r) (simp_all add: active_window_of_def)

lemma active_window_of_target [simp]: "active_window_of (tm_setter_target val s) r = active_window_of s r"
  by (cases r) (simp_all add: active_window_of_def)

lemma tab_at_mem: "tab_at s i = Some u \<Longrightarrow> u \<in> set (tabs (tm s))"
  by (simp add: tab_at_def py_getitem_mem)

lemma tm_setter_eq:
  assumes "\<forall>u \<in> set (tabs (tm s)). I1 (tstore s u)"
  shows "tm_active_tab_idx_setter val s =
     Returns (emit (if tab_at s (u_active_tab_idx (tm s)) \<noteq> tab_at s (clamp_idx val (length (tabs (tm s))))
                    then focus_ev (active_window_of s (tab_at s (u_active_tab_idx (tm s)))) False
                         @ focus_ev (active_window_of s (tab_at s (clamp_idx val (length (tabs (tm s)))))) True
                    else [])
              (tm_setter_target val s))"
proof -
  have n: "notify_active_window (tab_at s i) b s' = Returns (emit (focus_ev (active_window_of s' (tab_at s i)) b) s')"
    if "tstore s' = tstore s" for i b s'
    using assms that by (intro notify_I1) (auto dest: tab_at_mem)
  show ?thesis
    by (simp add: tm_setter_unfold n)
qed

text \<open>
  Claim C2. Assignment to \<open>Tab.active_window_idx\<close>: the focus notifications it adds to
  the trace are exactly \<open>focus_changed(False)\<close> on the window found at the old stored index
  (if there is one) followed by \<open>focus_changed(True)\<close> on the window found at the clamped
  new index (if there is one) when the two differ, and none when they are the same, both
  absent included. Assignment to \<open>TabManager.active_tab_idx\<close>, for tabs satisfying I1: it
  returns, and all it adds to the trace is \<open>focus_changed(False)\<close> on the active window of
  the outgoing tab followed by \<open>focus_changed(True)\<close> on the active window of the incoming
  tab (each if present) when the two tabs differ, nothing when they are the same. Where
  distinct tabs do not share an active window, the same holds with the identities of the
  two active windows compared in place of the identities of the two tabs.
\<close>

theorem focus_notifications_exact:
  "filter is_focus (trace (state_of (tab_active_window_idx_setter t val s)))
     = filter is_focus (trace s) @
       (if window_at s t (u_active_window_idx (tstore s t))
            \<noteq> window_at s t (clamp_idx val (length (windows (tstore s t))))
        then focus_ev (window_at s t (u_active_window_idx (tstore s t))) False
             @ focus_ev (window_at s t (clamp_idx val (length (windows (tstore s t))))) True
        else [])
   \<and> ((\<forall>u \<in> set (tabs (tm s)). I1 (tstore s u)) \<longrightarrow>
        returns (tm_active_tab_idx_setter val s)
        \<and> trace (state_of (tm_active_tab_idx_setter val s))
            = trace s @
              (if tab_at s (u_active_tab_idx (tm s)) \<noteq> tab_at s (clamp_idx val (length (tabs (tm s))))
               then focus_ev (active_window_of s (tab_at s (u_active_tab_idx (tm s)))) False
                    @ focus_ev (active_window_of s (tab_at s (clamp_idx val (length (tabs (tm s)))))) True
               else [])
        \<and> ((\<forall>a \<in> set (tabs (tm s)). \<forall>b \<in> set (tabs (tm s)). a \<noteq> b \<longrightarrow>
               active_window_of s (Some a) \<noteq> None \<longrightarrow>
               active_window_of s (Some a) \<noteq> active_window_of s (Some b)) \<longrightarrow>
             trace (state_of (tm_active_tab_idx_setter val s))
               = trace s @
                 (if active_window_of s (tab_at s (u_active_tab_idx (tm s)))
                      \<noteq> active_window_of s (tab_at s (clamp_idx val (length (tabs (tm s)))))
                  then focus_ev (active_window_of s (tab_at s (u_active_tab_idx (tm s)))) False
                       @ focus_ev (active_window_of s (tab_at s (clamp_idx val (length (tabs (tm s)))))) True
                  else [])))"
proof (intro conjI impI)
  show "filter is_focus (trace (state_of (tab_active_window_idx_setter t val s)))
     = filter is_focus (trace s) @
       (if window_at s t (u_active_window_idx (tstore s t))
            \<noteq> window_at s t (clamp_idx val (length (windows (tstore s t))))
        then focus_ev (window_at s t (u_active_window_idx (tstore s t))) False
             @ focus_ev (window_at s t (clamp_idx val (length (windows (tstore s t))))) True
        else [])"
    by (simp add: setter_eq setter_events_focus)
next
  assume inv: "\<forall>u \<in> set (tabs (tm s)). I1 (tstore s u)"
  show "returns (tm_active_tab_idx_setter val s)"
    by (simp add: tm_setter_eq [OF inv])
  show tr: "trace (state_of (tm_active_tab_idx_setter val s))
            = trace s @
              (if tab_at s (u_active_tab_idx (tm s)) \<noteq> tab_at s (clamp_idx val (length (tabs (tm s))))
               then focus_ev (active_window_of s (tab_at s (u_active_tab_idx (tm s)))) False
                    @ focus_ev (active_window_of s (tab_at s (clamp_idx val (length (tabs (tm s)))))) True
               else [])"
    by (simp add: tm_setter_eq [OF inv])
  assume dis: "\<forall>a \<in> set (tabs (tm s)). \<forall>b \<in> set (tabs (tm s)). a \<noteq> b \<longrightarrow>
               active_window_of s (Some a) \<noteq> None \<longrightarrow>
               active_window_of s (Some a) \<noteq> active_window_of s (Some b)"
  let ?o = "tab_at s (u_active_tab_idx (tm s))"
  let ?n = "tab_at s (clamp_idx val (length (tabs (tm s))))"
  have none: "active_window_of s None = None"
    by (simp add: active_window_of_def)
  have key: "active_window_of s ?o = None"
    if ne: "?o \<noteq> ?n" and eq: "active_window_of s ?o = active_window_of s ?n"
  proof (rule ccontr)
    assume nn: "active_window_of s ?o \<noteq> None"
    then obtain a where a: "?o = Some a" using none by (cases ?o) auto
    from nn eq obtain b where b: "?n = Some b" using none by (cases ?n) auto
    have "a \<in> set (tabs (tm s))" "b \<in> set (tabs (tm s))" "a \<noteq> b"
      using a b ne by (auto dest: tab_at_mem)
    with dis nn a b eq show False by auto
  qed
  show "trace (state_of (tm_active_tab_idx_setter val s))
               = trace s @
                 (if active_window_of s ?o \<noteq> active_window_of s ?n
                  then focus_ev (active_window_of s ?o) False @ focus_ev (active_window_of s ?n) True
                  else [])"
  proof (cases "?o = ?n")
    case True
    then show ?thesis by (simp add: tr)
  next
    case False
    show ?thesis
    proof (cases "active_window_of s ?o = active_window_of s ?n")
      case True
      with key [OF False True] show ?thesis by (simp add: tr False)
    next
      case ne: False
      then show ?thesis by (simp add: tr False)
    qed
  qed
qed

theorem focus_notifications_exact_witness:
  "trace (state_of (tm_active_tab_idx_setter 2 example_world))
     = [FocusChanged 0 False, FocusChanged 2 True]"
proof -
  have h1: "\<forall>u \<in> set (tabs (tm example_world)). I1 (tstore example_world u)"
    by (simp add: example_world_def I1_def)
  have h2: "\<forall>a \<in> set (tabs (tm example_world)). \<forall>b \<in> set (tabs (tm example_world)). a \<noteq> b \<longrightarrow>
               active_window_of example_world (Some a) \<noteq> None \<longrightarrow>
               active_window_of example_world (Some a) \<noteq> active_window_of example_world (Some b)"
    by (simp add: example_world_def active_window_of_def tab_active_window_def py_getitem_def)
  have "trace (state_of (tm_active_tab_idx_setter 2 example_world))
      = trace example_world @
          (if active_window_of example_world (tab_at example_world (u_active_tab_idx (tm example_world)))
                \<noteq> active_window_of example_world (tab_at example_world (clamp_idx 2 (length (tabs (tm example_world)))))
           then focus_ev (active_window_of example_world (tab_at example_world (u_active_tab_idx (tm example_world)))) False
                @ focus_ev (active_window_of example_world (tab_at example_world (clamp_idx 2 (length (tabs (tm example_world)))))) True
           else [])"
    using focus_notifications_exact [where t = 0 and val = 2 and s = example_world] h1 h2 by blast
  then show ?thesis
    by (simp add: example_world_def active_window_of_def tab_active_window_def py_getitem_def
        tab_at_def clamp_idx_def)
qed

subsection \<open>Recency history\<close>

lemma push_history_alt: "push_history h x = (if length h < 64 then h else tl h) @ [x]"
  by (cases h) (auto simp: push_history_def Let_def)

text \<open>
  Claim C4. Every assignment to \<open>TabManager.active_tab_idx\<close>, whatever the value and
  whether or not the clamped index differs from the old one, appends the id of the tab
  found at the old stored index to the history (so that it is the last entry afterwards);
  the history stays as it is exactly when the old index resolves to no tab. The entries
  before the new one are the old history, without its oldest entry once 64 were held.
\<close>

theorem history_push_on_assignment:
  "active_tab_history (tm (state_of (tm_active_tab_idx_setter val s)))
     = (case tab_at s (u_active_tab_idx (tm s)) of
          None \<Rightarrow> active_tab_history (tm s)
        | Some ot \<Rightarrow> push_history (active_tab_history (tm s)) (tab_id (tstore s ot)))
   \<and> last (push_history h x) = x \<and> push_history h x \<noteq> []
   \<and> butlast (push_history h x) = (if length h < 64 then h else tl h)"
  by (simp add: tm_setter_tm push_history_alt)

subsection \<open>Layout names\<close>

lemma lower_TALL: "lower ''TALL'' = lower ''tall''"
  by code_simp

text \<open>
  Claim C8. \<open>Tab.goto_layout\<close> depends on the requested name only through its lowercase
  form, so two names that agree up to case have the same effect, \<open>TALL\<close> and \<open>tall\<close> in
  particular. For a name whose lowercase form is not among the enabled layouts the call
  returns (it does not raise), logs the error, and leaves every tab, \<open>current_layout\<close>
  included, every window and the manager as they were.
\<close>

theorem goto_layout_case_insensitive:
  "(lower a = lower b \<longrightarrow> tab_goto_layout t a s = tab_goto_layout t b s)
   \<and> tab_goto_layout t ''TALL'' s = tab_goto_layout t ''tall'' s
   \<and> (lower n \<notin> set (enabled_layouts (tstore s t)) \<longrightarrow>
        tab_goto_layout t n s = Returns (emit [LogError (''Unknown or disabled layout: '' @ lower n)] s)
        \<and> returns (tab_goto_layout t n s)
        \<and> tstore (state_of (tab_goto_layout t n s)) = tstore s
        \<and> wstore (state_of (tab_goto_layout t n s)) = wstore s
        \<and> tm (state_of (tab_goto_layout t n s)) = tm s)"
proof -
  have eq: "tab_goto_layout t a s = tab_goto_layout t b s" if "lower a = lower b" for a b
    using that by (simp add: tab_goto_layout_def)
  from eq [OF lower_TALL] eq show ?thesis
    by (simp add: tab_goto_layout_def)
qed

theorem goto_layout_case_insensitive_witness:
  "tab_goto_layout 0 ''nonexistent'' example_world
     = Returns (emit [LogError ''Unknown or disabled layout: nonexistent''] example_world)
   \<and> full_name (current_layout (tstore (state_of (tab_goto_layout 0 ''TALL'' example_world)) 0)) = ''tall''
   \<and> tab_goto_layout 0 ''Tall'' example_world = tab_goto_layout 0 ''tAlL'' example_world"
proof -
  have l1: "lower ''nonexistent'' = ''nonexistent''" 
    by code_simp
  have l2: "lower ''Tall'' = lower ''tAlL''"
    by code_simp
  have h: "lower ''nonexistent'' \<notin> set (enabled_layouts (tstore example_world 0))"
    by (simp add: l1 example_world_def)
  have a: "tab_goto_layout 0 ''nonexistent'' example_world
     = Returns (emit [LogError ''Unknown or disabled layout: nonexistent''] example_world)"
    using goto_layout_case_insensitive [where t = 0 and n = "''nonexistent''" and s = example_world] h l1
    by simp
  have b: "tab_goto_layout 0 ''Tall'' example_world = tab_goto_layout 0 ''tAlL'' example_world"
    using goto_layout_case_insensitive [where t = 0 and a = "''Tall''" and b = "''tAlL''" and s = example_world] l2
    by blast
  have c: "full_name (current_layout (tstore (state_of (tab_goto_layout 0 ''TALL'' example_world)) 0)) = ''tall''"
    by code_simp
  from a b c show ?thesis by blast
qed

subsection \<open>Overlay windows\<close>

lemma find_distinct_ids:
  "w1 \<in> set ws \<Longrightarrow> distinct (map f ws) \<Longrightarrow> find (\<lambda>w. f w = f w1) ws = Some w1"
  by (induction ws) auto

lemma find_none: "(\<forall>w \<in> set ws. \<not> P w) \<Longrightarrow> find P ws = None"
  by (induction ws) auto

lemma new_window_linked:
  assumes "find (\<lambda>w. wid (wstore s w) = k) (windows (tstore s t)) = Some w1"
  shows "returns (tab_new_window t w2 (Some k) s)"
    and "wstore (state_of (tab_new_window t w2 (Some k) s))
         = (wstore s)(w2 := (wstore s w2)\<lparr>overlay_for := Some k\<rparr>,
              w1 := (((wstore s)(w2 := (wstore s w2)\<lparr>overlay_for := Some k\<rparr>)) w1)
                      \<lparr>overlay_window_id := Some (wid (wstore s w2))\<rparr>)"
  using assms
  by (simp_all add: tab_new_window_def Let_def apply_layout_eq relayout_borders_I1)

text \<open>
  Claim C9. \<open>Tab.new_window\<close> with \<open>overlay_for\<close> the id of a window W1 of the tab (window
  ids being distinct within the tab) returns, and afterwards the new window W2 has
  \<open>overlay_for = W1.id\<close> and W1 has \<open>overlay_window_id = W2.id\<close>. With an \<open>overlay_for\<close>
  that is the id of no window of the tab the call raises StopIteration, right after the
  child was launched: the window is not inserted and nothing is linked.
\<close>

theorem new_window_overlay_linkage:
  "(w1 \<in> set (windows (tstore s t))
      \<and> distinct (map (\<lambda>w. wid (wstore s w)) (windows (tstore s t))) \<longrightarrow>
      returns (tab_new_window t w2 (Some (wid (wstore s w1))) s)
      \<and> overlay_for (wstore (state_of (tab_new_window t w2 (Some (wid (wstore s w1))) s)) w2)
          = Some (wid (wstore (state_of (tab_new_window t w2 (Some (wid (wstore s w1))) s)) w1))
      \<and> overlay_window_id (wstore (state_of (tab_new_window t w2 (Some (wid (wstore s w1))) s)) w1)
          = Some (wid (wstore (state_of (tab_new_window t w2 (Some (wid (wstore s w1))) s)) w2)))
   \<and> ((\<forall>w \<in> set (windows (tstore s t)). wid (wstore s w) \<noteq> k) \<longrightarrow>
        tab_new_window t w2 (Some k) s = Raises StopIteration (emit [LaunchChild] s))"
proof (intro conjI impI)
  assume a: "w1 \<in> set (windows (tstore s t))
      \<and> distinct (map (\<lambda>w. wid (wstore s w)) (windows (tstore s t)))"
  then have f: "find (\<lambda>w. wid (wstore s w) = wid (wstore s w1)) (windows (tstore s t)) = Some w1"
    using find_distinct_ids [of w1 "windows (tstore s t)" "\<lambda>w. wid (wstore s w)"] by blast
  note l = new_window_linked [OF f, of w2]
  show "returns (tab_new_window t w2 (Some (wid (wstore s w1))) s)" by (rule l(1))
  show "overlay_for (wstore (state_of (tab_new_window t w2 (Some (wid (wstore s w1))) s)) w2)
          = Some (wid (wstore (state_of (tab_new_window t w2 (Some (wid (wstore s w1))) s)) w1))"
    by (simp add: l(2))
  show "overlay_window_id (wstore (state_of (tab_new_window t w2 (Some (wid (wstore s w1))) s)) w1)
          = Some (wid (wstore (state_of (tab_new_window t w2 (Some (wid (wstore s w1))) s)) w2))"
    by (simp add: l(2))
next
  assume "\<forall>w \<in> set (windows (tstore s t)). wid (wstore s w) \<noteq> k"
  then have "find (\<lambda>w. wid (wstore s w) = k) (windows (tstore s t)) = None"
    by (simp add: find_none)
  then show "tab_new_window t w2 (Some k) s = Raises StopIteration (emit [LaunchChild] s)"
    by (simp add: tab_new_window_def Let_def)
qed

theorem new_window_overlay_linkage_witness:
  "overlay_for (wstore (state_of (tab_new_window 0 7 (Some 100) example_world)) 7) = Some 100
   \<and> overlay_window_id (wstore (state_of (tab_new_window 0 7 (Some 100) example_world)) 0) = Some 107
   \<and> windows (tstore (state_of (tab_new_window 0 7 (Some 100) example_world)) 0) = [0, 7]
   \<and> tab_new_window 0 7 (Some 55) example_world = Raises StopIteration (emit [LaunchChild] example_world)"
proof -
  have h1: "0 \<in> set (windows (tstore example_world 0))
      \<and> distinct (map (\<lambda>w. wid (wstore example_world w)) (windows (tstore example_world 0)))"
    by (simp add: example_world_def)
  have h2: "\<forall>w \<in> set (windows (tstore example_world 0)). wid (wstore example_world w) \<noteq> 55"
    by (simp add: example_world_def)
  have i: "wid (wstore example_world 0) = 100"
    by (simp add: example_world_def)
  have w: "wid (wstore (state_of (tab_new_window 0 7 (Some 100) example_world)) 0) = 100"
    "wid (wstore (state_of (tab_new_window 0 7 (Some 100) example_world)) 7) = 107"
    "windows (tstore (state_of (tab_new_window 0 7 (Some 100) example_world)) 0) = [0, 7]"
    by code_simp+
  from new_window_overlay_linkage [where s = example_world and t = 0 and ?w1.0 = 0 and ?w2.0 = 7 and k = 55]
    h1 h2 i w show ?thesis by simp
qed

subsection \<open>Tab-bar visibility\<close>

lemma tbl_emit [simp]: "tab_bar_layouts (emit es s) = tab_bar_layouts s + count_list es TabBarLayout"
  by (simp add: tab_bar_layouts_def)

lemma tbl_upd [simp]:
  "tab_bar_layouts (upd_tab t f s) = tab_bar_layouts s"
  "tab_bar_layouts (upd_tm g s) = tab_bar_layouts s"
  by (simp_all add: tab_bar_layouts_def)

lemma count_focus_ev [simp]: "count_list (focus_ev w b) TabBarLayout = 0"
  by (cases w) simp_all

lemma count_setter_events [simp]: "count_list (setter_events t v s) TabBarLayout = 0"
  by (simp add: setter_events_def Let_def dirty_events_def split: option.splits)

lemma tbl_relayout_borders [simp]:
  "tab_bar_layouts (state_of (tab_relayout_borders t s)) = tab_bar_layouts s"
  by (simp add: tab_relayout_borders_def split: sum.splits option.splits)

lemma tbl_laid_out [simp]: "tab_bar_layouts (laid_out t nm r s) = tab_bar_layouts s"
  by (simp add: laid_out_def apply_layout_def setter_eq)

lemma tbl_relayout [simp]: "tab_bar_layouts (state_of (tab_relayout t s)) = tab_bar_layouts s"
  by (simp add: tab_relayout_def Let_def apply_layout_eq)

lemma tbl_relayout_all [simp]: "tab_bar_layouts (state_of (relayout_all ts s)) = tab_bar_layouts s"
  by (induction ts arbitrary: s) (simp_all add: state_of_andthen)

lemma tbl_visibility_changed:
  "tab_bar_layouts (state_of (tm_tabbar_visibility_changed s)) = tab_bar_layouts s + 1"
  by (simp add: tm_tabbar_visibility_changed_def tm_resize_def state_of_andthen)

lemma relayout_always_returns: "returns (tab_relayout t s)"
proof (cases "windows (tstore s t) = []")
  case True
  then have "I1 (tstore s t)" by (simp add: I1_def)
  then show ?thesis by (rule relayout_returns)
next
  case False
  then show ?thesis
    by (simp add: tab_relayout_def Let_def apply_layout_eq relayout_borders_I1)
qed

lemma relayout_all_returns: "returns (relayout_all ts s)"
proof (induction ts arbitrary: s)
  case Nil
  show ?case by simp
next
  case (Cons t ts)
  obtain s1 where "tab_relayout t s = Returns s1"
    using relayout_always_returns [of t s] by (cases "tab_relayout t s") auto
  with Cons show ?case by simp
qed

lemma visibility_changed_returns: "returns (tm_tabbar_visibility_changed s)"
proof -
  obtain s1 where "relayout_all (tabs (tm s)) (emit [TabBarLayout] s) = Returns s1"
    using relayout_all_returns [of "tabs (tm s)" "emit [TabBarLayout] s"]
    by (cases "relayout_all (tabs (tm s)) (emit [TabBarLayout] s)") auto
  then show ?thesis
    by (simp add: tm_tabbar_visibility_changed_def tm_resize_def)
qed

lemma length_remove1_mem: "x \<in> set xs \<Longrightarrow> length (remove1 x xs) = length xs - 1"
  by (simp add: length_remove1)

lemma add_cond: "(1 < Suc n \<and> n < 2) = (n = (1::nat))"
  by arith

lemma rem_cond: "(n - 1 < 2 \<and> 1 < n) = (n = (2::nat))"
  by arith

lemma lc_emit [simp]:
  "layout_calls (emit es s) = layout_calls s + count_list es (LayoutCall ''__call__'')"
  by (simp add: layout_calls_def)

lemma lc_upd [simp]:
  "layout_calls (upd_tab t f s) = layout_calls s"
  "layout_calls (upd_tm g s) = layout_calls s"
  by (simp_all add: layout_calls_def)

lemma lc_focus_ev [simp]: "count_list (focus_ev w b) (LayoutCall n) = 0"
  by (cases w) simp_all

lemma lc_setter_events [simp]: "count_list (setter_events t v s) (LayoutCall n) = 0"
  by (simp add: setter_events_def Let_def dirty_events_def split: option.splits)

lemma lc_relayout_borders [simp]:
  "layout_calls (state_of (tab_relayout_borders t s)) = layout_calls s"
  by (simp add: tab_relayout_borders_def split: sum.splits option.splits)

lemma lc_laid_out [simp]:
  "layout_calls (laid_out t ''__call__'' r s) = layout_calls s + 1"
  by (simp add: laid_out_def apply_layout_def setter_eq)

lemma lc_relayout:
  "layout_calls (state_of (tab_relayout t s))
     = layout_calls s + (if windows (tstore s t) \<noteq> [] then 1 else 0)"
  by (simp add: tab_relayout_def Let_def apply_layout_eq)

lemma relayout_tstore:
  "tstore (state_of (tab_relayout t s)) = (tstore s)(t := relaid_tab (tstore s t))"
  by (simp add: tab_relayout_def Let_def apply_layout_eq laid_out_tstore relaid_tab_def)

lemma relayout_all_step:
  "relayout_all (t # ts) s = relayout_all ts (state_of (tab_relayout t s))"
  using relayout_always_returns [of t s] by (cases "tab_relayout t s") simp_all

lemma lc_relayout_all:
  "distinct ts \<Longrightarrow>
   layout_calls (state_of (relayout_all ts s)) = layout_calls s + length (filter (has_windows s) ts)"
proof (induction ts arbitrary: s)
  case Nil
  show ?case by simp
next
  case (Cons t ts)
  let ?s1 = "state_of (tab_relayout t s)"
  from Cons.prems have d: "distinct ts" and nt: "t \<notin> set ts" by simp_all
  have "filter (has_windows ?s1) ts = filter (has_windows s) ts"
    using nt by (intro filter_cong) (auto simp: has_windows_def relayout_tstore)
  with Cons.IH [OF d, of ?s1]
  have "layout_calls (state_of (relayout_all (t # ts) s))
      = layout_calls ?s1 + length (filter (has_windows s) ts)"
    by (simp add: relayout_all_step del: relayout_all.simps)
  moreover have "has_windows s t = (windows (tstore s t) \<noteq> [])"
    by (simp add: has_windows_def)
  ultimately show ?case
    by (simp add: lc_relayout del: relayout_all.simps)
qed

lemma relayout_all_tstore:
  "distinct ts \<Longrightarrow>
   tstore (state_of (relayout_all ts s))
     = (\<lambda>u. if u \<in> set ts then relaid_tab (tstore s u) else tstore s u)"
proof (induction ts arbitrary: s)
  case Nil
  show ?case by simp
next
  case (Cons t ts)
  let ?s1 = "state_of (tab_relayout t s)"
  from Cons.prems have d: "distinct ts" and nt: "t \<notin> set ts" by simp_all
  show ?case
    using nt by (auto simp: relayout_all_step Cons.IH [OF d] relayout_tstore fun_eq_iff
        simp del: relayout_all.simps)
qed

lemma visibility_changed_state:
  "state_of (tm_tabbar_visibility_changed s)
     = emit [GlfwPostEmptyEvent] (state_of (relayout_all (tabs (tm s)) (emit [TabBarLayout] s)))"
  using relayout_all_returns [of "tabs (tm s)" "emit [TabBarLayout] s"]
  by (cases "relayout_all (tabs (tm s)) (emit [TabBarLayout] s)")
     (simp_all add: tm_tabbar_visibility_changed_def tm_resize_def)

lemma has_windows_frame [simp]:
  "has_windows (emit es s) = has_windows s" "has_windows (upd_tm g s) = has_windows s"
  by (simp_all add: has_windows_def fun_eq_iff)

lemma lc_visibility_changed:
  "distinct (tabs (tm s)) \<Longrightarrow>
   layout_calls (state_of (tm_tabbar_visibility_changed s))
     = layout_calls s + length (filter (has_windows s) (tabs (tm s)))"
  by (simp add: visibility_changed_state lc_relayout_all)

lemma visibility_changed_tstore:
  "distinct (tabs (tm s)) \<Longrightarrow>
   tstore (state_of (tm_tabbar_visibility_changed s))
     = (\<lambda>u. if u \<in> set (tabs (tm s)) then relaid_tab (tstore s u) else tstore s u)"
  by (simp add: visibility_changed_state relayout_all_tstore fun_eq_iff)

text \<open>
  Claim C6. \<open>_add_tab\<close> calls \<open>tabbar_visibility_changed\<close> exactly when one tab was there
  before (the count goes from 1 to 2), \<open>_remove_tab\<close> exactly when the tab is in the list
  and two were there before (2 to 1); in every other case the tab list is all that changes.
  The number of tab-bar geometry recomputations in the trace grows by one in the two
  crossing cases and not at all otherwise. \<open>tabbar_visibility_changed\<close> itself recomputes
  the tab-bar geometry, then runs the full relayout of every tab, then posts the wakeup;
  it always returns, so \<open>_add_tab\<close> returns, and \<open>_remove_tab\<close> returns unless the tab is
  not in the list. The full resize is observable: for a manager whose tabs are pairwise
  different objects, \<open>tabbar_visibility_changed\<close> asks the layout strategy for a full layout
  once for every tab that has windows and leaves every tab of the manager relaid (windows
  as the strategy left them, index clamped), every other tab untouched; \<open>_add_tab\<close> and
  \<open>_remove_tab\<close> do so for the tabs of the new list in the crossing cases, and make no
  layout call and change no tab otherwise.
\<close>

theorem tabbar_visibility_boundary:
  "tm_u_add_tab tab s =
     (if length (tabs (tm s)) = 1
      then tm_tabbar_visibility_changed (upd_tm (\<lambda>m. m\<lparr>tabs := tabs m @ [tab]\<rparr>) s)
      else Returns (upd_tm (\<lambda>m. m\<lparr>tabs := tabs m @ [tab]\<rparr>) s))
   \<and> tab_bar_layouts (state_of (tm_u_add_tab tab s))
       = tab_bar_layouts s + (if length (tabs (tm s)) = 1 then 1 else 0)
   \<and> tm_u_remove_tab tab s =
       (if tab \<notin> set (tabs (tm s))
        then Raises ValueError (emit [NativeRemoveTab (tab_id (tstore s tab))] s)
        else if length (tabs (tm s)) = 2
        then tm_tabbar_visibility_changed
               (upd_tm (\<lambda>m. m\<lparr>tabs := remove1 tab (tabs m)\<rparr>)
                 (emit [NativeRemoveTab (tab_id (tstore s tab))] s))
        else Returns (upd_tm (\<lambda>m. m\<lparr>tabs := remove1 tab (tabs m)\<rparr>)
                 (emit [NativeRemoveTab (tab_id (tstore s tab))] s)))
   \<and> tab_bar_layouts (state_of (tm_u_remove_tab tab s))
       = tab_bar_layouts s + (if tab \<in> set (tabs (tm s)) \<and> length (tabs (tm s)) = 2 then 1 else 0)
   \<and> tm_tabbar_visibility_changed s =
       andthen (relayout_all (tabs (tm s)) (emit [TabBarLayout] s))
         (\<lambda>s1. Returns (emit [GlfwPostEmptyEvent] s1))
   \<and> returns (tm_u_add_tab tab s)
   \<and> returns (tm_u_remove_tab tab s) = (tab \<in> set (tabs (tm s)))
   \<and> (distinct (tabs (tm s)) \<longrightarrow>
        layout_calls (state_of (tm_tabbar_visibility_changed s))
          = layout_calls s + length (filter (has_windows s) (tabs (tm s)))
        \<and> tstore (state_of (tm_tabbar_visibility_changed s))
            = (\<lambda>u. if u \<in> set (tabs (tm s)) then relaid_tab (tstore s u) else tstore s u)
        \<and> layout_calls (state_of (tm_u_remove_tab tab s))
            = layout_calls s
              + (if tab \<in> set (tabs (tm s)) \<and> length (tabs (tm s)) = 2
                 then length (filter (has_windows s) (remove1 tab (tabs (tm s)))) else 0)
        \<and> tstore (state_of (tm_u_remove_tab tab s))
            = (if tab \<in> set (tabs (tm s)) \<and> length (tabs (tm s)) = 2
               then (\<lambda>u. if u \<in> set (remove1 tab (tabs (tm s))) then relaid_tab (tstore s u)
                         else tstore s u)
               else tstore s))
   \<and> (distinct (tabs (tm s) @ [tab]) \<longrightarrow>
        layout_calls (state_of (tm_u_add_tab tab s))
          = layout_calls s
            + (if length (tabs (tm s)) = 1
               then length (filter (has_windows s) (tabs (tm s) @ [tab])) else 0)
        \<and> tstore (state_of (tm_u_add_tab tab s))
            = (if length (tabs (tm s)) = 1
               then (\<lambda>u. if u \<in> set (tabs (tm s) @ [tab]) then relaid_tab (tstore s u)
                         else tstore s u)
               else tstore s))"
proof -
  have a: "tm_u_add_tab tab s =
     (if length (tabs (tm s)) = 1
      then tm_tabbar_visibility_changed (upd_tm (\<lambda>m. m\<lparr>tabs := tabs m @ [tab]\<rparr>) s)
      else Returns (upd_tm (\<lambda>m. m\<lparr>tabs := tabs m @ [tab]\<rparr>) s))"
  proof -
    have "length (tabs (tm s) @ [tab]) = Suc (length (tabs (tm s)))"
      by simp
    then have "(1 < length (tabs (tm s) @ [tab]) \<and> length (tabs (tm s)) < 2) = (length (tabs (tm s)) = 1)"
      by (simp only: add_cond)
    then show ?thesis
      by (simp add: tm_u_add_tab_def Let_def del: length_append One_nat_def)
  qed
  have r: "tm_u_remove_tab tab s =
       (if tab \<notin> set (tabs (tm s))
        then Raises ValueError (emit [NativeRemoveTab (tab_id (tstore s tab))] s)
        else if length (tabs (tm s)) = 2
        then tm_tabbar_visibility_changed
               (upd_tm (\<lambda>m. m\<lparr>tabs := remove1 tab (tabs m)\<rparr>)
                 (emit [NativeRemoveTab (tab_id (tstore s tab))] s))
        else Returns (upd_tm (\<lambda>m. m\<lparr>tabs := remove1 tab (tabs m)\<rparr>)
                 (emit [NativeRemoveTab (tab_id (tstore s tab))] s)))"
  proof (cases "tab \<in> set (tabs (tm s))")
    case True
    then have "length (remove1 tab (tabs (tm s))) = length (tabs (tm s)) - 1"
      by (rule length_remove1_mem)
    then have "(length (remove1 tab (tabs (tm s))) < 2 \<and> 1 < length (tabs (tm s))) = (length (tabs (tm s)) = 2)"
      by (simp only: rem_cond)
    with True show ?thesis
      by (simp add: tm_u_remove_tab_def Let_def del: One_nat_def)
  next
    case False
    then show ?thesis
      by (simp add: tm_u_remove_tab_def Let_def)
  qed
  have v: "tm_tabbar_visibility_changed s =
       andthen (relayout_all (tabs (tm s)) (emit [TabBarLayout] s))
         (\<lambda>s1. Returns (emit [GlfwPostEmptyEvent] s1))"
    by (simp add: tm_tabbar_visibility_changed_def tm_resize_def)
  have ca: "tab_bar_layouts (state_of (tm_u_add_tab tab s))
       = tab_bar_layouts s + (if length (tabs (tm s)) = 1 then 1 else 0)"
    by (simp add: a tbl_visibility_changed)
  have cr: "tab_bar_layouts (state_of (tm_u_remove_tab tab s))
       = tab_bar_layouts s + (if tab \<in> set (tabs (tm s)) \<and> length (tabs (tm s)) = 2 then 1 else 0)"
    by (simp add: r tbl_visibility_changed)
  have ra: "returns (tm_u_add_tab tab s)"
    by (simp add: a visibility_changed_returns)
  have rr: "returns (tm_u_remove_tab tab s) = (tab \<in> set (tabs (tm s)))"
    by (simp add: r visibility_changed_returns)
  have la: "layout_calls (state_of (tm_u_add_tab tab s))
          = layout_calls s
            + (if length (tabs (tm s)) = 1
               then length (filter (has_windows s) (tabs (tm s) @ [tab])) else 0)"
    and ta: "tstore (state_of (tm_u_add_tab tab s))
            = (if length (tabs (tm s)) = 1
               then (\<lambda>u. if u \<in> set (tabs (tm s) @ [tab]) then relaid_tab (tstore s u)
                         else tstore s u)
               else tstore s)"
    if "distinct (tabs (tm s) @ [tab])"
    using that by (simp_all add: a lc_visibility_changed visibility_changed_tstore fun_eq_iff)
  have lv: "layout_calls (state_of (tm_tabbar_visibility_changed s))
          = layout_calls s + length (filter (has_windows s) (tabs (tm s)))"
    and tv: "tstore (state_of (tm_tabbar_visibility_changed s))
            = (\<lambda>u. if u \<in> set (tabs (tm s)) then relaid_tab (tstore s u) else tstore s u)"
    and lr: "layout_calls (state_of (tm_u_remove_tab tab s))
            = layout_calls s
              + (if tab \<in> set (tabs (tm s)) \<and> length (tabs (tm s)) = 2
                 then length (filter (has_windows s) (remove1 tab (tabs (tm s)))) else 0)"
    and tr: "tstore (state_of (tm_u_remove_tab tab s))
            = (if tab \<in> set (tabs (tm s)) \<and> length (tabs (tm s)) = 2
               then (\<lambda>u. if u \<in> set (remove1 tab (tabs (tm s))) then relaid_tab (tstore s u)
                         else tstore s u)
               else tstore s)"
    if "distinct (tabs (tm s))"
    using that by (simp_all add: r lc_visibility_changed visibility_changed_tstore fun_eq_iff)
  from a r v ca cr ra rr la ta lv tv lr tr show ?thesis by blast
qed

theorem tabbar_visibility_boundary_witness:
  "layout_calls (state_of (tm_u_add_tab 1 (upd_tm (\<lambda>m. m\<lparr>tabs := [0]\<rparr>) example_world))) = 2
   \<and> layout_calls (state_of (tm_u_add_tab 3 example_world)) = 0
   \<and> layout_calls (state_of (tm_u_remove_tab 1 (upd_tm (\<lambda>m. m\<lparr>tabs := [0, 1]\<rparr>) example_world))) = 1
   \<and> layout_calls (state_of (tm_u_remove_tab 1 example_world)) = 0"
proof -
  let ?s1 = "upd_tm (\<lambda>m. m\<lparr>tabs := [0]\<rparr>) example_world"
  let ?s2 = "upd_tm (\<lambda>m. m\<lparr>tabs := [0, 1]\<rparr>) example_world"
  have v: "tabs (tm example_world) = [0, 1, 2]" "layout_calls example_world = 0"
    "has_windows example_world u" for u
    by (simp_all add: example_world_def layout_calls_def has_windows_def)
  have d1: "distinct (tabs (tm ?s1) @ [1])" by simp
  have d2: "distinct (tabs (tm example_world) @ [3])" by (simp add: v)
  have d3: "distinct (tabs (tm ?s2))" by simp
  have d4: "distinct (tabs (tm example_world))" by (simp add: v)
  from tabbar_visibility_boundary [where s = ?s1 and tab = 1] d1
  have "layout_calls (state_of (tm_u_add_tab 1 ?s1))
      = layout_calls ?s1
        + (if length (tabs (tm ?s1)) = 1
           then length (filter (has_windows ?s1) (tabs (tm ?s1) @ [1])) else 0)"
    by blast
  then have a: "layout_calls (state_of (tm_u_add_tab 1 ?s1)) = 2"
    by (simp add: v)
  from tabbar_visibility_boundary [where s = example_world and tab = 3] d2
  have "layout_calls (state_of (tm_u_add_tab 3 example_world))
      = layout_calls example_world
        + (if length (tabs (tm example_world)) = 1
           then length (filter (has_windows example_world) (tabs (tm example_world) @ [3])) else 0)"
    by blast
  then have b: "layout_calls (state_of (tm_u_add_tab 3 example_world)) = 0"
    by (simp add: v)
  from tabbar_visibility_boundary [where s = ?s2 and tab = 1] d3
  have "layout_calls (state_of (tm_u_remove_tab 1 ?s2))
      = layout_calls ?s2
        + (if 1 \<in> set (tabs (tm ?s2)) \<and> length (tabs (tm ?s2)) = 2
           then length (filter (has_windows ?s2) (remove1 1 (tabs (tm ?s2)))) else 0)"
    by blast
  then have c: "layout_calls (state_of (tm_u_remove_tab 1 ?s2)) = 1"
    by (simp add: v)
  from tabbar_visibility_boundary [where s = example_world and tab = 1] d4
  have "layout_calls (state_of (tm_u_remove_tab 1 example_world))
      = layout_calls example_world
        + (if 1 \<in> set (tabs (tm example_world)) \<and> length (tabs (tm example_world)) = 2
           then length (filter (has_windows example_world) (remove1 1 (tabs (tm example_world)))) else 0)"
    by blast
  then have d: "layout_calls (state_of (tm_u_remove_tab 1 example_world)) = 0"
    by (simp add: v)
  from a b c d show ?thesis by blast
qed

subsection \<open>Moving the active tab\<close>

lemma I1_tabs_iff: "I1_tabs s = (\<forall>u \<in> set (tabs (tm s)). I1 (tstore s u))"
  by (simp add: I1_tabs_def list_all_iff)

lemma tm_setter_eq2:
  "I1_tabs s \<Longrightarrow> tm_active_tab_idx_setter val s = Returns (emit (tm_setter_events val s) (tm_setter_target val s))"
  using tm_setter_eq [of s val] by (simp add: I1_tabs_iff tm_setter_events_def)

lemma u_set_active_tab_eq:
  "I1_tabs s \<Longrightarrow> tm_u_set_active_tab val s
     = Returns (emit (tm_setter_events val s @ [NativeSetActiveTab val]) (tm_setter_target val s))"
  by (simp add: tm_u_set_active_tab_def tm_setter_eq2)

lemma filter_native_focus [simp]: "filter is_native_tab_call (focus_ev w b) = []"
  by (cases w) simp_all

lemma filter_native_tm_setter [simp]: "filter is_native_tab_call (tm_setter_events val s) = []"
  by (simp add: tm_setter_events_def)

lemma filter_native_dirty [simp]: "filter is_native_tab_call (dirty_events s) = []"
  by (simp add: dirty_events_def)

lemma clamp_idx_id: "0 \<le> v \<Longrightarrow> v < int n \<Longrightarrow> clamp_idx v n = v"
  by (simp add: clamp_idx_def)

lemma py_setitem_in_range:
  "0 \<le> i \<Longrightarrow> i < int (length xs) \<Longrightarrow> py_setitem xs i v = Some (xs[nat i := v])"
  by (simp add: py_setitem_def)

lemma move_target_range:
  "tabs (tm s) \<noteq> [] \<Longrightarrow> 0 \<le> move_target s delta \<and> move_target s delta < int (length (tabs (tm s)))"
  by (simp add: move_target_def)

lemma move_tab_eq:
  assumes n: "1 < length (tabs (tm s))"
    and lo: "0 \<le> u_active_tab_idx (tm s)"
    and hi: "u_active_tab_idx (tm s) < int (length (tabs (tm s)))"
    and inv: "I1_tabs s"
  shows "tm_move_tab delta s =
     (let idx = u_active_tab_idx (tm s); nidx = move_target s delta;
          s1 = emit [NativeSwapTabs idx nidx]
                 (upd_tm (\<lambda>m. m\<lparr>tabs := (tabs (tm s))[nat idx := tabs (tm s) ! nat nidx,
                                                      nat nidx := tabs (tm s) ! nat idx]\<rparr>) s)
      in Returns (emit (tm_setter_events nidx s1 @ [NativeSetActiveTab nidx]
                        @ dirty_events s1) (tm_setter_target nidx s1)))"
proof -
  let ?ts = "tabs (tm s)"
  let ?idx = "u_active_tab_idx (tm s)"
  let ?nidx = "move_target s delta"
  from n have ne: "?ts \<noteq> []" by auto
  note r = move_target_range [OF ne, of delta]
  let ?s1 = "emit [NativeSwapTabs ?idx ?nidx]
                 (upd_tm (\<lambda>m. m\<lparr>tabs := ?ts[nat ?idx := ?ts ! nat ?nidx, nat ?nidx := ?ts ! nat ?idx]\<rparr>) s)"
  have b1: "nat ?idx < length ?ts" using lo hi by (simp add: nat_less_iff)
  have b2: "nat ?nidx < length ?ts" using r by (simp add: nat_less_iff)
  have "set (tabs (tm ?s1)) = set ?ts"
    using b1 b2 by simp
  then have inv1: "I1_tabs ?s1"
    using inv by (simp add: I1_tabs_iff)
  have dirty: "dirty_events (tm_setter_target v ?s1) = dirty_events ?s1" for v
    by (simp add: dirty_events_def)
  have "tm_move_tab delta s = andthen (tm_u_set_active_tab ?nidx ?s1) tm_mark_tab_bar_dirty"
    using n r lo hi
    by (simp add: tm_move_tab_def Let_def py_getitem_in_range py_setitem_in_range move_target_def [symmetric])
  then show ?thesis
    by (simp add: u_set_active_tab_eq [OF inv1] mark_dirty_eq Let_def dirty dirty_events_def)
qed

text \<open>
  Claim C7. With more than one tab, a stored active index that addresses a tab, and tabs
  satisfying I1, \<open>TabManager.move_tab\<close> returns for every delta; the tab list is the old
  one with the entries at \<open>idx\<close> and at \<open>(idx + len + delta) mod len\<close> exchanged, the native
  \<open>swap_tabs\<close> receives that same pair of indices and \<open>set_active_tab\<close> the second of them,
  the stored index becomes that second index, and the tab found there is the tab that was
  active before. With at most one tab the call changes nothing.
\<close>

theorem move_tab_preserves_active:
  "(1 < length (tabs (tm s)) \<and> 0 \<le> u_active_tab_idx (tm s)
      \<and> u_active_tab_idx (tm s) < int (length (tabs (tm s))) \<and> I1_tabs s \<longrightarrow>
      returns (tm_move_tab delta s)
      \<and> tabs (tm (state_of (tm_move_tab delta s)))
          = (tabs (tm s))[nat (u_active_tab_idx (tm s)) := tabs (tm s) ! nat (move_target s delta),
                          nat (move_target s delta) := tabs (tm s) ! nat (u_active_tab_idx (tm s))]
      \<and> u_active_tab_idx (tm (state_of (tm_move_tab delta s))) = move_target s delta
      \<and> tab_at (state_of (tm_move_tab delta s)) (u_active_tab_idx (tm (state_of (tm_move_tab delta s))))
          = tab_at s (u_active_tab_idx (tm s))
      \<and> filter is_native_tab_call (trace (state_of (tm_move_tab delta s)))
          = filter is_native_tab_call (trace s)
            @ [NativeSwapTabs (u_active_tab_idx (tm s)) (move_target s delta),
               NativeSetActiveTab (move_target s delta)])
   \<and> (length (tabs (tm s)) \<le> 1 \<longrightarrow> tm_move_tab delta s = Returns s)"
proof (intro conjI impI)
  assume "length (tabs (tm s)) \<le> 1"
  then show "tm_move_tab delta s = Returns s"
    by (simp add: tm_move_tab_def Let_def)
next
  assume a: "1 < length (tabs (tm s)) \<and> 0 \<le> u_active_tab_idx (tm s)
      \<and> u_active_tab_idx (tm s) < int (length (tabs (tm s))) \<and> I1_tabs s"
  let ?ts = "tabs (tm s)"
  let ?idx = "u_active_tab_idx (tm s)"
  let ?nidx = "move_target s delta"
  from a have ne: "?ts \<noteq> []" by auto
  note r = move_target_range [OF ne, of delta]
  have b1: "nat ?idx < length ?ts" using a by (simp add: nat_less_iff)
  have b2: "nat ?nidx < length ?ts" using r by (simp add: nat_less_iff)
  from a have eq: "tm_move_tab delta s =
     (let idx = ?idx; nidx = ?nidx;
          s1 = emit [NativeSwapTabs idx nidx]
                 (upd_tm (\<lambda>m. m\<lparr>tabs := ?ts[nat idx := ?ts ! nat nidx, nat nidx := ?ts ! nat idx]\<rparr>) s)
      in Returns (emit (tm_setter_events nidx s1 @ [NativeSetActiveTab nidx]
                        @ dirty_events s1) (tm_setter_target nidx s1)))"
    by (intro move_tab_eq) simp_all
  show "returns (tm_move_tab delta s)"
    by (simp add: eq Let_def)
  show t: "tabs (tm (state_of (tm_move_tab delta s)))
          = ?ts[nat ?idx := ?ts ! nat ?nidx, nat ?nidx := ?ts ! nat ?idx]"
    by (simp add: eq Let_def)
  show i: "u_active_tab_idx (tm (state_of (tm_move_tab delta s))) = ?nidx"
    using r by (simp add: eq Let_def clamp_idx_id)
  show "tab_at (state_of (tm_move_tab delta s)) (u_active_tab_idx (tm (state_of (tm_move_tab delta s))))
          = tab_at s ?idx"
    using r a b1 b2 by (simp add: i tab_at_def t py_getitem_in_range)
  show "filter is_native_tab_call (trace (state_of (tm_move_tab delta s)))
          = filter is_native_tab_call (trace s) @ [NativeSwapTabs ?idx ?nidx, NativeSetActiveTab ?nidx]"
    by (simp add: eq Let_def)
qed

theorem move_tab_preserves_active_witness:
  "tabs (tm (state_of (tm_move_tab (- 1) example_world))) = [2, 1, 0]
   \<and> u_active_tab_idx (tm (state_of (tm_move_tab (- 1) example_world))) = 2
   \<and> tab_at (state_of (tm_move_tab (- 1) example_world)) 2 = tab_at example_world 0
   \<and> filter is_native_tab_call (trace (state_of (tm_move_tab (- 1) example_world)))
       = [NativeSwapTabs 0 2, NativeSetActiveTab 2]
   \<and> tm_move_tab 5 (upd_tm (\<lambda>m. m\<lparr>tabs := [1]\<rparr>) example_world)
       = Returns (upd_tm (\<lambda>m. m\<lparr>tabs := [1]\<rparr>) example_world)"
proof -
  have h: "1 < length (tabs (tm example_world)) \<and> 0 \<le> u_active_tab_idx (tm example_world)
      \<and> u_active_tab_idx (tm example_world) < int (length (tabs (tm example_world)))
      \<and> I1_tabs example_world"
    by (simp add: example_world_def I1_tabs_def I1_def)
  have m: "move_target example_world (- 1) = 2"
    by (simp add: move_target_def example_world_def)
  have v: "u_active_tab_idx (tm example_world) = 0" "tabs (tm example_world) = [0, 1, 2]"
    "trace example_world = []"
    by (simp_all add: example_world_def)
  have h2: "length (tabs (tm (upd_tm (\<lambda>m. m\<lparr>tabs := [1]\<rparr>) example_world))) \<le> 1"
    by simp
  from move_tab_preserves_active [where s = example_world and delta = "- 1"] h
    move_tab_preserves_active [where s = "upd_tm (\<lambda>m. m\<lparr>tabs := [1]\<rparr>) example_world" and delta = 5] h2
  show ?thesis by (auto simp: m v)
qed

subsection \<open>Reactivation after the removal of a tab\<close>

lemma remove_loop_found: "0 \<le> n \<Longrightarrow> remove_loop ids rid h n = (h, n)"
  by (subst remove_loop.simps) simp

lemma remove_loop_Nil: "remove_loop ids rid [] n = ([], n)"
  by (subst remove_loop.simps) simp

lemma first_index_eq:
  "first_index (\<lambda>q. q = x) ids
     = (if x \<in> set ids then Some (length (takeWhile (\<lambda>q. q \<noteq> x) ids)) else None)"
  by (induction ids) auto

lemma first_index_less: "first_index P xs = Some i \<Longrightarrow> i < length xs"
  by (induction xs arbitrary: i) (auto split: if_splits)

lemma remove_loop_snoc:
  "remove_loop ids rid (h @ [x]) (- 1) =
     (if x \<noteq> rid \<and> x \<in> set ids then (h, int (length (takeWhile (\<lambda>q. q \<noteq> x) ids)))
      else remove_loop ids rid h (- 1))"
  by (subst remove_loop.simps) (simp add: Let_def first_index_eq remove_loop_found)

lemma remove_loop_spec:
  "snd (remove_loop ids rid h (- 1)) =
     (case find (\<lambda>x. x \<noteq> rid \<and> x \<in> set ids) (rev h) of
        Some x \<Rightarrow> int (length (takeWhile (\<lambda>q. q \<noteq> x) ids))
      | None \<Rightarrow> - 1)"
  by (induction h rule: rev_induct) (simp_all add: remove_loop_Nil remove_loop_snoc)

lemma remove_loop_bound:
  "snd (remove_loop ids rid h (- 1)) < int (length ids)"
proof (induction h rule: rev_induct)
  case Nil
  show ?case by (simp add: remove_loop_Nil)
next
  case (snoc x h)
  have "length (takeWhile (\<lambda>q. q \<noteq> x) ids) < length ids" if "x \<in> set ids"
    using that by (induction ids) auto
  with snoc show ?case by (simp add: remove_loop_snoc)
qed

lemma remove_loop_length: "length (fst (remove_loop ids rid h (- 1))) \<le> length h"
  by (induction h rule: rev_induct) (simp_all add: remove_loop_Nil remove_loop_snoc)

lemma next_active_spec:
  "clamp_idx (if snd (remove_loop ids rid h (- 1)) < 0 then clamp_idx prev (length ids)
              else snd (remove_loop ids rid h (- 1))) (length ids)
   = spec_next_active ids rid h prev"
proof (cases "snd (remove_loop ids rid h (- 1)) < 0")
  case True
  then have "find (\<lambda>x. x \<noteq> rid \<and> x \<in> set ids) (rev h) = None"
    by (simp add: remove_loop_spec split: option.splits)
  with True show ?thesis
    by (simp add: spec_next_active_def clamp_idx_def)
next
  case False
  then obtain x where "find (\<lambda>x. x \<noteq> rid \<and> x \<in> set ids) (rev h) = Some x"
    by (auto simp: remove_loop_spec split: option.splits)
  with False remove_loop_bound [of ids rid h] show ?thesis
    by (simp add: spec_next_active_def remove_loop_spec clamp_idx_id)
qed

lemma relayout_tm [simp]: "tm (state_of (tab_relayout t s)) = tm s"
  by (simp add: tab_relayout_def Let_def apply_layout_eq state_of_andthen)

lemma relayout_tab_id [simp]: "tab_id (tstore (state_of (tab_relayout t s)) u) = tab_id (tstore s u)"
  by (simp add: tab_relayout_def Let_def apply_layout_eq state_of_andthen laid_out_tstore)

lemma relayout_all_tm [simp]: "tm (state_of (relayout_all ts s)) = tm s"
  by (induction ts arbitrary: s) (simp_all add: state_of_andthen)

lemma relayout_all_tab_id [simp]:
  "tab_id (tstore (state_of (relayout_all ts s)) u) = tab_id (tstore s u)"
  by (induction ts arbitrary: s) (simp_all add: state_of_andthen)

lemma relayout_all_I1: "I1 (tstore s u) \<Longrightarrow> I1 (tstore (state_of (relayout_all ts s)) u)"
  by (induction ts arbitrary: s) (simp_all add: state_of_andthen relayout_I1)

lemma visibility_changed_eq: "tm_tabbar_visibility_changed s = Returns (after_visibility_change s)"
  using visibility_changed_returns [of s]
  by (cases "tm_tabbar_visibility_changed s") (simp_all add: after_visibility_change_def)

lemma after_visibility_change_proj [simp]:
  "tm (after_visibility_change s) = tm s"
  "tab_id (tstore (after_visibility_change s) u) = tab_id (tstore s u)"
  by (simp_all add: after_visibility_change_def tm_tabbar_visibility_changed_def tm_resize_def
      state_of_andthen)

lemma after_visibility_change_I1:
  "I1 (tstore s u) \<Longrightarrow> I1 (tstore (after_visibility_change s) u)"
  by (simp add: after_visibility_change_def tm_tabbar_visibility_changed_def tm_resize_def
      state_of_andthen relayout_all_I1)

lemma u_remove_tab_eq:
  "tab \<in> set (tabs (tm s)) \<Longrightarrow> tm_u_remove_tab tab s = Returns (tab_removed tab s)"
  by (simp add: tab_removed_def tm_u_remove_tab_def Let_def visibility_changed_eq)

lemma tab_removed_proj:
  "tab \<in> set (tabs (tm s)) \<Longrightarrow> tm (tab_removed tab s) = (tm s)\<lparr>tabs := remove1 tab (tabs (tm s))\<rparr>"
  by (simp add: tab_removed_def tm_u_remove_tab_def Let_def visibility_changed_eq)

lemma tab_removed_tab_id [simp]: "tab_id (tstore (tab_removed tab s) u) = tab_id (tstore s u)"
  by (simp add: tab_removed_def tm_u_remove_tab_def Let_def visibility_changed_eq)

lemma tab_removed_I1: "I1 (tstore s u) \<Longrightarrow> I1 (tstore (tab_removed tab s) u)"
  by (simp add: tab_removed_def tm_u_remove_tab_def Let_def visibility_changed_eq
      after_visibility_change_I1)

lemma tab_removed_I1_tabs:
  "tab \<in> set (tabs (tm s)) \<Longrightarrow> I1_tabs s \<Longrightarrow> I1_tabs (tab_removed tab s)"
proof -
  assume mem: "tab \<in> set (tabs (tm s))" and inv: "I1_tabs s"
  have "I1 (tstore (tab_removed tab s) u)" if "u \<in> set (remove1 tab (tabs (tm s)))" for u
  proof -
    from that have "u \<in> set (tabs (tm s))"
      using set_remove1_subset [of tab "tabs (tm s)"] by blast
    with inv have "I1 (tstore s u)" by (simp add: I1_tabs_iff)
    then show ?thesis by (rule tab_removed_I1)
  qed
  then show ?thesis
    by (simp add: I1_tabs_iff tab_removed_proj [OF mem])
qed

lemma destroy_tm [simp]: "tm (state_of (tab_destroy t s)) = tm s"
  by (simp add: tab_destroy_def)

lemma I1_tabs_upd_history [simp]:
  "I1_tabs (upd_tm (\<lambda>m. m\<lparr>active_tab_history := h\<rparr>) s) = I1_tabs s"
  by (simp add: I1_tabs_def)

lemma tm_remove_eq:
  assumes mem: "tab \<in> set (tabs (tm s))" and inv: "I1_tabs s"
  shows "returns (tm_remove tab s)"
    and "tabs (tm (state_of (tm_remove tab s))) = remove1 tab (tabs (tm s))"
    and "u_active_tab_idx (tm (state_of (tm_remove tab s)))
         = spec_next_active (map (\<lambda>q. tab_id (tstore s q)) (remove1 tab (tabs (tm s))))
             (tab_id (tstore s tab)) (active_tab_history (tm s)) (u_active_tab_idx (tm s))"
proof -
  let ?s1 = "tab_removed tab s"
  let ?ids = "map (\<lambda>q. tab_id (tstore s q)) (remove1 tab (tabs (tm s)))"
  let ?r = "remove_loop ?ids (tab_id (tstore s tab)) (active_tab_history (tm s)) (- 1)"
  let ?s2 = "upd_tm (\<lambda>m. m\<lparr>active_tab_history := fst ?r\<rparr>) ?s1"
  let ?next = "if snd ?r < 0 then clamp_idx (u_active_tab_idx (tm s)) (length ?ids) else snd ?r"
  have inv2: "I1_tabs ?s2"
    using tab_removed_I1_tabs [OF mem inv] by simp
  have eq: "tm_remove tab s =
      andthen (tm_u_set_active_tab ?next ?s2)
        (\<lambda>s3. andthen (tm_mark_tab_bar_dirty s3) (tab_destroy tab))"
    by (simp add: tm_remove_def u_remove_tab_eq [OF mem] tab_removed_proj [OF mem] Let_def)
  show "returns (tm_remove tab s)"
    by (simp add: eq u_set_active_tab_eq [OF inv2] mark_dirty_eq tab_destroy_def)
  show "tabs (tm (state_of (tm_remove tab s))) = remove1 tab (tabs (tm s))"
    by (simp add: eq u_set_active_tab_eq [OF inv2] mark_dirty_eq tab_removed_proj [OF mem])
  have "u_active_tab_idx (tm (state_of (tm_remove tab s))) = clamp_idx ?next (length ?ids)"
    by (simp add: eq u_set_active_tab_eq [OF inv2] mark_dirty_eq tab_removed_proj [OF mem])
  then show "u_active_tab_idx (tm (state_of (tm_remove tab s)))
         = spec_next_active ?ids (tab_id (tstore s tab)) (active_tab_history (tm s)) (u_active_tab_idx (tm s))"
    by (simp only: next_active_spec)
qed

lemma mark_dirty_proj [simp]:
  "tm (state_of (tm_mark_tab_bar_dirty s)) = tm s"
  "tstore (state_of (tm_mark_tab_bar_dirty s)) = tstore s"
  by (simp_all add: mark_dirty_eq)

lemma u_set_active_tab_proj [simp]:
  "tm (state_of (tm_u_set_active_tab i s)) = tm (tm_setter_target i s)"
  "tstore (state_of (tm_u_set_active_tab i s)) = tstore s"
  by (simp_all add: tm_u_set_active_tab_def state_of_andthen tm_setter_tm tm_setter_stores)

lemma set_active_tab_idx_proj [simp]:
  "tm (state_of (tm_set_active_tab_idx i s)) = tm (tm_setter_target i s)"
  "tstore (state_of (tm_set_active_tab_idx i s)) = tstore s"
  by (simp_all add: tm_set_active_tab_idx_def state_of_andthen split: sum.splits option.splits)

lemma set_active_tab_idx_returns:
  assumes inv: "I1_tabs s" and lo: "0 \<le> i" and hi: "i < int (length (tabs (tm s)))"
  shows "returns (tm_set_active_tab_idx i s)"
proof -
  let ?s1 = "emit (tm_setter_events i s @ [NativeSetActiveTab i]) (tm_setter_target i s)"
  have t: "tm_active_tab ?s1 = Inr (Some (tabs (tm s) ! nat i))"
    using lo hi by (auto simp: tm_active_tab_def clamp_idx_id py_getitem_in_range)
  have "tabs (tm s) ! nat i \<in> set (tabs (tm s))"
    using lo hi by (simp add: nat_less_iff)
  with inv have "I1 (tstore ?s1 (tabs (tm s) ! nat i))"
    by (simp add: I1_tabs_iff)
  then show ?thesis
    by (simp add: tm_set_active_tab_idx_def u_set_active_tab_eq [OF inv] t relayout_borders_I1
        mark_dirty_eq)
qed

lemma I1_tabs_cong: "tabs (tm s') = tabs (tm s) \<Longrightarrow> tstore s' = tstore s \<Longrightarrow> I1_tabs s' = I1_tabs s"
  by (simp add: I1_tabs_def)

lemma set_active_tab_unfold:
  "first_index (\<lambda>t. t = tab) (tabs (tm s)) = Some i \<Longrightarrow>
   tm_set_active_tab tab s = tm_set_active_tab_idx (int i) s"
  by (simp add: tm_set_active_tab_def)

lemma scenario_abc:
  assumes ts: "tabs (tm s) = [a, b, c]" and i0: "u_active_tab_idx (tm s) = 0"
    and ids: "distinct (map (\<lambda>q. tab_id (tstore s q)) [a, b, c])" and inv: "I1_tabs s"
  shows "returns (tm_set_active_tab b s)"
    and "returns (tm_set_active_tab c (state_of (tm_set_active_tab b s)))"
    and "returns (close_after_visiting b c s)"
    and "tabs (tm (state_of (close_after_visiting b c s))) = [a, b]"
    and "tab_at (state_of (close_after_visiting b c s))
           (u_active_tab_idx (tm (state_of (close_after_visiting b c s)))) = Some b"
proof -
  from ids have ne: "a \<noteq> b" "a \<noteq> c" "b \<noteq> c" by auto
  let ?s1 = "state_of (tm_set_active_tab b s)"
  let ?s2 = "state_of (tm_set_active_tab c ?s1)"
  have "first_index (\<lambda>t. t = b) (tabs (tm s)) = Some 1"
    using ne by (simp add: ts)
  from set_active_tab_unfold [OF this]
  have e1: "tm_set_active_tab b s = tm_set_active_tab_idx 1 s"
    by simp
  show r1: "returns (tm_set_active_tab b s)"
    unfolding e1 using inv by (rule set_active_tab_idx_returns) (simp_all add: ts)
  have t1: "tabs (tm ?s1) = [a, b, c]" "tstore ?s1 = tstore s"
    by (simp_all add: e1 ts)
  have h1: "active_tab_history (tm ?s1)
      = push_history (active_tab_history (tm s)) (tab_id (tstore s a))"
    by (simp add: e1 tab_at_def ts i0 py_getitem_def)
  have inv1: "I1_tabs ?s1"
    using inv by (simp add: I1_tabs_cong [of ?s1 s] t1 ts)
  have i1: "u_active_tab_idx (tm ?s1) = 1"
    by (simp add: e1 ts clamp_idx_def)
  have "first_index (\<lambda>t. t = c) (tabs (tm ?s1)) = Some 2"
    using ne by (simp add: t1)
  from set_active_tab_unfold [OF this]
  have e2: "tm_set_active_tab c ?s1 = tm_set_active_tab_idx 2 ?s1"
    by simp
  show "returns (tm_set_active_tab c ?s1)"
    unfolding e2 using inv1 by (rule set_active_tab_idx_returns) (simp_all add: t1)
  have t2: "tabs (tm ?s2) = [a, b, c]" "tstore ?s2 = tstore s"
    by (simp_all add: e2 t1)
  have h2: "active_tab_history (tm ?s2)
      = push_history (push_history (active_tab_history (tm s)) (tab_id (tstore s a))) (tab_id (tstore s b))"
    by (simp add: e2 tab_at_def t1 i1 h1 py_getitem_def)
  have inv2: "I1_tabs ?s2"
    using inv by (simp add: I1_tabs_cong [of ?s2 s] t2 ts)
  have mem: "c \<in> set (tabs (tm ?s2))"
    by (simp add: t2)
  note rm = tm_remove_eq [OF mem inv2]
  show "returns (close_after_visiting b c s)"
    unfolding close_after_visiting_def by (rule rm(1))
  have rem: "remove1 c [a, b, c] = [a, b]"
    using ne by auto
  show tabs3: "tabs (tm (state_of (close_after_visiting b c s))) = [a, b]"
    unfolding close_after_visiting_def using ne by (auto simp: rm(2) t2)
  have "u_active_tab_idx (tm (state_of (close_after_visiting b c s))) = 1"
    unfolding close_after_visiting_def using ids ne
    by (auto simp: rm(3) t2 h2 spec_next_active_def push_history_alt)
  then show "tab_at (state_of (close_after_visiting b c s))
           (u_active_tab_idx (tm (state_of (close_after_visiting b c s)))) = Some b"
    by (simp add: tab_at_def tabs3 py_getitem_def)
qed

text \<open>
  Claim C3. \<open>TabManager.remove\<close> of a tab of the manager (tabs satisfying I1) returns, takes
  the tab out of the list, and leaves as active index the one the reactivation rule names:
  the position of the tab whose id is the most recent history entry that is neither the id
  of the removed tab nor the id of no remaining tab, and otherwise the previous active index
  clamped into the shortened list. In particular, for tabs \<open>[a, b, c]\<close> with distinct ids
  and \<open>a\<close> active, activating \<open>b\<close>, then \<open>c\<close>, then removing \<open>c\<close> leaves the tabs
  \<open>[a, b]\<close> with \<open>b\<close> active.
\<close>

theorem remove_reactivates_from_history:
  "(tab \<in> set (tabs (tm s)) \<and> I1_tabs s \<longrightarrow>
      returns (tm_remove tab s)
      \<and> tabs (tm (state_of (tm_remove tab s))) = remove1 tab (tabs (tm s))
      \<and> u_active_tab_idx (tm (state_of (tm_remove tab s)))
          = spec_next_active (map (\<lambda>q. tab_id (tstore s q)) (remove1 tab (tabs (tm s))))
              (tab_id (tstore s tab)) (active_tab_history (tm s)) (u_active_tab_idx (tm s)))
   \<and> (tabs (tm s) = [a, b, c] \<and> u_active_tab_idx (tm s) = 0
        \<and> distinct (map (\<lambda>q. tab_id (tstore s q)) [a, b, c]) \<and> I1_tabs s \<longrightarrow>
      returns (tm_set_active_tab b s)
      \<and> returns (tm_set_active_tab c (state_of (tm_set_active_tab b s)))
      \<and> returns (close_after_visiting b c s)
      \<and> tabs (tm (state_of (close_after_visiting b c s))) = [a, b]
      \<and> tab_at (state_of (close_after_visiting b c s))
            (u_active_tab_idx (tm (state_of (close_after_visiting b c s)))) = Some b)"
  using tm_remove_eq [of tab s] scenario_abc [of s a b c] by blast

theorem remove_reactivates_from_history_witness:
  "tab_at (state_of (close_after_visiting 1 2 example_world))
     (u_active_tab_idx (tm (state_of (close_after_visiting 1 2 example_world)))) = Some 1
   \<and> tabs (tm (state_of (close_after_visiting 1 2 example_world))) = [0, 1]
   \<and> u_active_tab_idx (tm (state_of (tm_remove 0 example_world))) = 0
   \<and> tabs (tm (state_of (tm_remove 0 example_world))) = [1, 2]"
proof -
  have h1: "tabs (tm example_world) = [0, 1, 2] \<and> u_active_tab_idx (tm example_world) = 0
        \<and> distinct (map (\<lambda>q. tab_id (tstore example_world q)) [0, 1, 2]) \<and> I1_tabs example_world"
    by (simp add: example_world_def I1_tabs_def I1_def)
  have h2: "0 \<in> set (tabs (tm example_world)) \<and> I1_tabs example_world"
    by (simp add: example_world_def I1_tabs_def I1_def)
  have v: "spec_next_active (map (\<lambda>q. tab_id (tstore example_world q)) (remove1 0 (tabs (tm example_world))))
              (tab_id (tstore example_world 0)) (active_tab_history (tm example_world))
              (u_active_tab_idx (tm example_world)) = 0"
    "remove1 0 (tabs (tm example_world)) = [1, 2]"
    by (simp_all add: example_world_def spec_next_active_def clamp_idx_def)
  from remove_reactivates_from_history [where s = example_world and a = 0 and b = 1 and c = 2 and tab = 0]
    h1 h2 v show ?thesis by simp
qed

subsection \<open>The bound of the recency history\<close>

lemma hist_ok_cong: "tm s' = tm s \<Longrightarrow> hist_ok s' = hist_ok s"
  by (simp add: hist_ok_def)

lemma hist_ok_andthen:
  "hist_ok (state_of r) \<Longrightarrow> (\<And>s'. hist_ok s' \<Longrightarrow> hist_ok (state_of (f s'))) \<Longrightarrow>
   hist_ok (state_of (andthen r f))"
  by (cases r) simp_all

lemma hist_ok_emit [simp]: "hist_ok (emit es s) = hist_ok s"
  by (simp add: hist_ok_def)

lemma hist_ok_upd_tab [simp]: "hist_ok (upd_tab t f s) = hist_ok s"
  by (simp add: hist_ok_def)

lemma hist_ok_upd_window [simp]: "hist_ok (upd_window w f s) = hist_ok s"
  by (simp add: hist_ok_def)

lemma hist_ok_tabs [simp]: "hist_ok (upd_tm (\<lambda>m. m\<lparr>tabs := g m\<rparr>) s) = hist_ok s"
  by (simp add: hist_ok_def)

lemma length_push_history: "length h \<le> 64 \<Longrightarrow> length (push_history h x) \<le> 64"
  by (simp add: push_history_alt)

lemma hist_ok_target: "hist_ok s \<Longrightarrow> hist_ok (tm_setter_target v s)"
  by (simp add: hist_ok_def length_push_history split: option.splits)

lemma hist_ok_setter: "hist_ok s \<Longrightarrow> hist_ok (state_of (tm_active_tab_idx_setter v s))"
  using hist_ok_cong [OF tm_setter_tm, of v s] by (simp add: hist_ok_target)

lemma hist_ok_u_set: "hist_ok s \<Longrightarrow> hist_ok (state_of (tm_u_set_active_tab v s))"
  using hist_ok_cong [OF u_set_active_tab_proj(1), of v s] by (simp add: hist_ok_target)

lemma hist_ok_set_idx: "hist_ok s \<Longrightarrow> hist_ok (state_of (tm_set_active_tab_idx v s))"
  using hist_ok_cong [OF set_active_tab_idx_proj(1), of v s] by (simp add: hist_ok_target)

lemma hist_ok_mark_dirty: "hist_ok s \<Longrightarrow> hist_ok (state_of (tm_mark_tab_bar_dirty s))"
  by (simp add: mark_dirty_eq)

lemma hist_ok_relayout_borders: "hist_ok s \<Longrightarrow> hist_ok (state_of (tab_relayout_borders t s))"
  using hist_ok_cong [OF relayout_borders_proj(2), of t s] by simp

lemma hist_ok_laid_out [simp]: "hist_ok (laid_out t nm r s) = hist_ok s"
  by (rule hist_ok_cong) simp

lemma hist_ok_relayout: "hist_ok s \<Longrightarrow> hist_ok (state_of (tab_relayout t s))"
  using hist_ok_cong [OF relayout_tm, of t s] by simp

lemma hist_ok_relayout_all: "hist_ok s \<Longrightarrow> hist_ok (state_of (relayout_all ts s))"
  using hist_ok_cong [OF relayout_all_tm, of ts s] by simp

lemma hist_ok_resize: "hist_ok s \<Longrightarrow> hist_ok (state_of (tm_resize b s))"
  by (auto simp: tm_resize_def mark_dirty_eq intro!: hist_ok_andthen hist_ok_relayout_all)

lemma hist_ok_visibility: "hist_ok s \<Longrightarrow> hist_ok (state_of (tm_tabbar_visibility_changed s))"
  by (auto simp: tm_tabbar_visibility_changed_def intro!: hist_ok_andthen hist_ok_resize)

lemma hist_ok_u_add: "hist_ok s \<Longrightarrow> hist_ok (state_of (tm_u_add_tab t s))"
  by (simp add: tm_u_add_tab_def Let_def hist_ok_visibility)

lemma hist_ok_u_remove: "hist_ok s \<Longrightarrow> hist_ok (state_of (tm_u_remove_tab t s))"
  by (simp add: tm_u_remove_tab_def Let_def hist_ok_visibility)

lemma hist_ok_destroy: "hist_ok s \<Longrightarrow> hist_ok (state_of (tab_destroy t s))"
  by (simp add: tab_destroy_def)

lemma hist_ok_history:
  "hist_ok s \<Longrightarrow> length h \<le> length (active_tab_history (tm s)) \<Longrightarrow>
   hist_ok (upd_tm (\<lambda>m. m\<lparr>active_tab_history := h\<rparr>) s)"
  by (simp add: hist_ok_def)

lemma hist_ok_remove: "hist_ok s \<Longrightarrow> hist_ok (state_of (tm_remove t s))"
  unfolding tm_remove_def Let_def
  by (intro hist_ok_andthen hist_ok_u_remove hist_ok_u_set hist_ok_mark_dirty hist_ok_destroy
      hist_ok_history remove_loop_length)

lemma hist_ok_set_active_tab: "hist_ok s \<Longrightarrow> hist_ok (state_of (tm_set_active_tab t s))"
  by (simp add: tm_set_active_tab_def hist_ok_set_idx split: option.splits)

lemma hist_ok_next_tab: "hist_ok s \<Longrightarrow> hist_ok (state_of (tm_next_tab d s))"
  by (simp add: tm_next_tab_def Let_def hist_ok_set_idx)

lemma hist_ok_goto_tab: "hist_ok s \<Longrightarrow> hist_ok (state_of (tm_goto_tab n s))"
  by (simp add: tm_goto_tab_def hist_ok_set_idx)

lemma hist_ok_move_tab: "hist_ok s \<Longrightarrow> hist_ok (state_of (tm_move_tab d s))"
  unfolding tm_move_tab_def Let_def
  by (auto split: option.splits intro!: hist_ok_andthen hist_ok_u_set hist_ok_mark_dirty)

lemma setter_tm [simp]: "tm (state_of (tab_active_window_idx_setter t v s)) = tm s"
  by (simp add: setter_eq)

lemma new_window_tm: "tm (state_of (tab_new_window t w ovl s)) = tm s"
  by (simp add: tab_new_window_def Let_def apply_layout_eq state_of_andthen split: option.splits)

lemma remove_window_tm: "tm (state_of (tab_remove_window t w s)) = tm s"
  by (simp add: tab_remove_window_def Let_def apply_layout_eq state_of_andthen)

lemma close_window_tm: "tm (state_of (tab_close_window t s)) = tm s"
  by (simp add: tab_close_window_def Let_def remove_window_tm split: option.splits)

lemma set_active_window_idx_tm: "tm (state_of (tab_set_active_window_idx t i s)) = tm s"
  by (simp add: tab_set_active_window_idx_def Let_def apply_layout_eq state_of_andthen)

lemma set_active_window_tm: "tm (state_of (tab_set_active_window t w s)) = tm s"
  by (simp add: tab_set_active_window_def set_active_window_idx_tm split: option.splits)

lemma nth_window_tm: "tm (state_of (tab_nth_window t n s)) = tm s"
  by (simp add: tab_nth_window_def Let_def apply_layout_eq state_of_andthen)

lemma u_next_window_tm: "tm (state_of (tab_u_next_window t d s)) = tm s"
  by (simp add: tab_u_next_window_def Let_def apply_layout_eq state_of_andthen)

lemma move_window_tm: "tm (state_of (tab_move_window t d s)) = tm s"
  by (simp add: tab_move_window_def Let_def apply_layout_eq state_of_andthen)

lemma next_layout_tm: "tm (state_of (tab_next_layout t s)) = tm s"
  by (simp add: tab_next_layout_def Let_def split: option.splits)

lemma goto_layout_tm: "tm (state_of (tab_goto_layout t n s)) = tm s"
  by (simp add: tab_goto_layout_def Let_def split: option.splits)

lemma tab_step_tm: "tm (state_of (tab_step t x s)) = tm s"
  by (cases x)
     (simp_all add: new_window_tm remove_window_tm close_window_tm set_active_window_idx_tm
        set_active_window_tm nth_window_tm u_next_window_tm move_window_tm next_layout_tm
        goto_layout_tm tab_next_window_def tab_previous_window_def tab_move_window_to_top_def
        tab_move_window_forward_def tab_move_window_backward_def)

lemma hist_ok_tm_step: "hist_ok s \<Longrightarrow> hist_ok (state_of (tm_step x s))"
  by (cases x)
     (simp_all add: hist_ok_setter hist_ok_u_set hist_ok_set_idx hist_ok_set_active_tab
        hist_ok_next_tab hist_ok_goto_tab hist_ok_move_tab hist_ok_remove hist_ok_u_add
        hist_ok_u_remove hist_ok_resize hist_ok_cong [OF tab_step_tm])

lemma hist_ok_tm_run: "hist_ok s \<Longrightarrow> hist_ok (tm_run xs s)"
  by (induction xs arbitrary: s) (simp_all add: hist_ok_tm_step)

lemma foldl_push_history:
  "length h \<le> 64 \<Longrightarrow>
   foldl push_history h xs = drop (length (h @ xs) - 64) (h @ xs)"
proof (induction xs arbitrary: h)
  case Nil
  then show ?case by simp
next
  case (Cons x xs)
  have l: "length (push_history h x) \<le> 64"
    using Cons.prems by (rule length_push_history)
  show ?case
  proof (cases "length h < 64")
    case True
    then have "push_history h x = h @ [x]"
      by (simp add: push_history_alt)
    with Cons.IH [OF l] show ?thesis by simp
  next
    case False
    with Cons.prems have len: "length h = 64" by simp
    then obtain a t where h: "h = a # t"
      by (cases h) auto
    with len have lt: "length t = 63" by simp
    have p: "push_history h x = t @ [x]"
      using len h by (simp add: push_history_alt)
    have "foldl push_history h (x # xs) = drop (length ((t @ [x]) @ xs) - 64) ((t @ [x]) @ xs)"
      using Cons.IH [OF l] by (simp add: p)
    also have "\<dots> = drop (length xs) (t @ x # xs)"
      by (simp add: lt)
    also have "\<dots> = drop (length (h @ x # xs) - 64) (h @ x # xs)"
      by (simp add: h lt)
    finally show ?thesis .
  qed
qed

lemma activations_history:
  "in_range s (u_active_tab_idx (tm s)) \<Longrightarrow> list_all (in_range s) idxs \<Longrightarrow>
   active_tab_history (tm (tm_run (map SetActiveTabIdx idxs) s))
     = foldl push_history (active_tab_history (tm s)) (outgoing_ids s idxs)"
proof (induction idxs arbitrary: s)
  case Nil
  show ?case by (simp add: outgoing_ids_def)
next
  case (Cons i idxs)
  let ?s1 = "state_of (tm_set_active_tab_idx i s)"
  from Cons.prems have ri: "in_range s i" and rest: "list_all (in_range s) idxs"
    by simp_all
  have ts: "tabs (tm ?s1) = tabs (tm s)" "tstore ?s1 = tstore s"
    by simp_all
  have idx: "u_active_tab_idx (tm ?s1) = i"
    using ri by (simp add: in_range_def clamp_idx_id)
  have r: "in_range ?s1 = in_range s"
    by (simp add: in_range_def fun_eq_iff)
  have h: "active_tab_history (tm ?s1)
      = push_history (active_tab_history (tm s))
          (tab_id (tstore s (tabs (tm s) ! nat (u_active_tab_idx (tm s)))))"
    using Cons.prems(1) by (simp add: in_range_def tab_at_def py_getitem_in_range)
  have o: "outgoing_ids ?s1 idxs
      = map (\<lambda>j. tab_id (tstore s (tabs (tm s) ! nat j))) (outgoing i idxs)"
    using idx by (simp add: outgoing_ids_def)
  have ih: "active_tab_history (tm (tm_run (map SetActiveTabIdx idxs) ?s1))
     = foldl push_history (active_tab_history (tm ?s1)) (outgoing_ids ?s1 idxs)"
    using ri rest idx by (intro Cons.IH) (simp_all add: r)
  have step: "tm_run (map SetActiveTabIdx (i # idxs)) s = tm_run (map SetActiveTabIdx idxs) ?s1"
    by simp
  have out: "outgoing_ids s (i # idxs)
      = tab_id (tstore s (tabs (tm s) ! nat (u_active_tab_idx (tm s))))
        # map (\<lambda>j. tab_id (tstore s (tabs (tm s) ! nat j))) (outgoing i idxs)"
    by (simp add: outgoing_ids_def)
  show ?case
    by (simp only: step ih h o out foldl_Cons)
qed

text \<open>
  Claim C5. A history of at most 64 entries has at most 64 entries after every operation
  of the manager and of its tabs, hence after each prefix of every sequence of them. A push
  onto a history of 64 entries drops the oldest entry first, so pushing the ids \<open>xs\<close> one
  after the other leaves the last 64 entries of the old history followed by \<open>xs\<close>. For tab
  activations: after activating valid positions one after the other, the history holds the
  last 64 of its old entries followed by the ids of the tabs that were left.
\<close>

theorem history_bounded:
  "(length (active_tab_history (tm s)) \<le> 64 \<longrightarrow>
      (\<forall>n. length (active_tab_history (tm (tm_run (take n ops) s))) \<le> 64))
   \<and> (length h \<le> 64 \<longrightarrow>
        length (push_history h x) \<le> 64
        \<and> push_history h x = (if length h < 64 then h else tl h) @ [x]
        \<and> foldl push_history h xs = drop (length (h @ xs) - 64) (h @ xs))
   \<and> (length (active_tab_history (tm s)) \<le> 64 \<and> in_range s (u_active_tab_idx (tm s))
        \<and> list_all (in_range s) idxs \<longrightarrow>
        active_tab_history (tm (tm_run (map SetActiveTabIdx idxs) s))
          = drop (length (active_tab_history (tm s) @ outgoing_ids s idxs) - 64)
              (active_tab_history (tm s) @ outgoing_ids s idxs))"
proof (intro conjI impI allI)
  fix n
  assume "length (active_tab_history (tm s)) \<le> 64"
  then have "hist_ok s" by (simp add: hist_ok_def)
  then have "hist_ok (tm_run (take n ops) s)" by (rule hist_ok_tm_run)
  then show "length (active_tab_history (tm (tm_run (take n ops) s))) \<le> 64"
    by (simp add: hist_ok_def)
next
  assume "length h \<le> 64"
  then show "length (push_history h x) \<le> 64"
    and "foldl push_history h xs = drop (length (h @ xs) - 64) (h @ xs)"
    by (simp_all only: length_push_history foldl_push_history)
  show "push_history h x = (if length h < 64 then h else tl h) @ [x]"
    by (rule push_history_alt)
next
  assume a: "length (active_tab_history (tm s)) \<le> 64 \<and> in_range s (u_active_tab_idx (tm s))
        \<and> list_all (in_range s) idxs"
  then have "active_tab_history (tm (tm_run (map SetActiveTabIdx idxs) s))
     = foldl push_history (active_tab_history (tm s)) (outgoing_ids s idxs)"
    by (intro activations_history) simp_all
  with a show "active_tab_history (tm (tm_run (map SetActiveTabIdx idxs) s))
          = drop (length (active_tab_history (tm s) @ outgoing_ids s idxs) - 64)
              (active_tab_history (tm s) @ outgoing_ids s idxs)"
    by (simp only: foldl_push_history)
qed

theorem history_bounded_witness:
  "active_tab_history (tm (tm_run (map SetActiveTabIdx (map (\<lambda>k. int (Suc k mod 3)) [0..<100])) example_world))
     = map (\<lambda>k. 10 + k mod 3) [36..<100]
   \<and> length (active_tab_history (tm (tm_run [SetActiveTabIdx 1, MoveTab 1, Remove 0, NextTab 1]
        example_world))) \<le> 64
   \<and> foldl push_history [] [0..<100] = [36..<100]"
proof -
  have h0: "length (active_tab_history (tm example_world)) \<le> 64"
    by (simp add: example_world_def)
  have h1: "in_range example_world (u_active_tab_idx (tm example_world))"
    by (simp add: example_world_def in_range_def)
  have h2: "list_all (in_range example_world) (map (\<lambda>k. int (Suc k mod 3)) [0..<100])"
    by (simp add: in_range_def example_world_def list_all_iff)
  have v: "drop (length (active_tab_history (tm example_world)
                    @ outgoing_ids example_world (map (\<lambda>k. int (Suc k mod 3)) [0..<100])) - 64)
             (active_tab_history (tm example_world)
                @ outgoing_ids example_world (map (\<lambda>k. int (Suc k mod 3)) [0..<100]))
           = map (\<lambda>k. 10 + k mod 3) [36..<100]"
    by code_simp
  have e: "drop (length ([] @ [0..<100]) - 64) ([] @ [0..<100]) = [36..<(100::nat)]"
    by code_simp
  have l: "length ([]::nat list) \<le> 64" by simp
  have a: "active_tab_history (tm (tm_run (map SetActiveTabIdx (map (\<lambda>k. int (Suc k mod 3)) [0..<100])) example_world))
     = map (\<lambda>k. 10 + k mod 3) [36..<100]"
    using history_bounded [where s = example_world and idxs = "map (\<lambda>k. int (Suc k mod 3)) [0..<100]"]
      h0 h1 h2 v by presburger
  have b: "length (active_tab_history (tm (tm_run [SetActiveTabIdx 1, MoveTab 1, Remove 0, NextTab 1]
        example_world))) \<le> 64"
    using history_bounded [where s = example_world and ops = "[SetActiveTabIdx 1, MoveTab 1, Remove 0, NextTab 1]"]
      h0 by (metis take_all order_refl)
  have c: "foldl push_history [] [0..<100] = [36..<100]"
    using history_bounded [where h = "[]" and xs = "[0..<100]"] l e by presburger
  from a b c show ?thesis by blast
qed

end
